theory Spec2Isabelle
  imports Main "HOL-Library.Word"
begin

section \<open>The environment of the GeoIP modules\<close>

text \<open>
  The three modules \<^verbatim>\<open>lib/geo/chunked-loader.ts\<close>, \<^verbatim>\<open>lib/geo/preload.ts\<close> and
  \<^verbatim>\<open>lib/geo/ip-to-country.ts\<close> talk to the file system, to \<^verbatim>\<open>JSON.parse\<close>, to
  \<^verbatim>\<open>zlib.gunzipSync\<close> and to the \<^verbatim>\<open>maxmind\<close> reader. None of these is code of the
  repository; each of them is a field of the environment record below, so that every
  theorem holds for whatever they do. Every \<^verbatim>\<open>throw\<close> of the source is an \<open>Inl\<close> of the
  model.
\<close>

type_synonym byte = "8 word"

type_synonym buffer = "byte list"

datatype error =
    MetadataNotFound string
  | ChunkNotFound string
  | ChunkSizeMismatch nat nat nat
  | NoDatabaseFound
  | NotPreloaded
  | IOError string
  | SyntaxError
  | TypeError
  | ZlibError
  | InvalidDatabase
  | LookupError string

text \<open>A node of the file system: \<^verbatim>\<open>fs.existsSync\<close> is true of both kinds,
  \<^verbatim>\<open>fs.readFileSync\<close> returns the bytes of a file and throws on a directory.\<close>

datatype node = File buffer | Directory

text \<open>What \<^verbatim>\<open>reader.get(ip)\<close> returns is a decoded record of the database, which
  the source reads by property access and truthiness; it is modelled as a JavaScript
  value.\<close>

datatype json =
    JUndefined
  | JNull
  | JBool bool
  | JNumber int
  | JString string
  | JArray "json list"
  | JObject "(string \<times> json) list"

text \<open>The entries of the manifest \<^verbatim>\<open>metadata.json\<close> (interface \<^verbatim>\<open>ChunkMetadata\<close>).
  The display fields \<^verbatim>\<open>totalSizeMB\<close>, \<^verbatim>\<open>totalCompressedSizeMB\<close> and
  \<^verbatim>\<open>compressionRatio\<close> are never read by the loader and are left out; sizes are byte
  counts.\<close>

record ChunkInfo =
  index :: nat
  originalSize :: nat
  compressedSize :: nat
  filename :: string

record ChunkMetadata =
  originalFile :: string
  totalSize :: nat
  chunkSize :: nat
  numChunks :: nat
  totalCompressedSize :: nat
  chunks :: "ChunkInfo list"
  createdAt :: string

text \<open>A reader is the Provider built from one buffer, which it keeps.\<close>

datatype reader = Reader (reader_buffer: buffer)

record env =
  cwd :: string
  fs :: "string \<rightharpoonup> node"
  JSON_parse :: "buffer \<Rightarrow> error + ChunkMetadata"
  gunzipSync :: "buffer \<Rightarrow> error + buffer"
  heap_garbage :: "nat \<Rightarrow> byte"
  Reader_accepts :: "buffer \<Rightarrow> bool"
  Reader_get :: "buffer \<Rightarrow> string \<Rightarrow> error + json"

text \<open>\<^verbatim>\<open>path.join\<close> on segments that need no normalisation.\<close>

fun path_join :: "string list \<Rightarrow> string" where
  "path_join [] = ''.''"
| "path_join [s] = s"
| "path_join (s # t # ss) = s @ ''/'' @ path_join (t # ss)"

definition existsSync :: "env \<Rightarrow> string \<Rightarrow> bool" where
  "existsSync e p = (fs e p \<noteq> None)"

definition readFileSync :: "env \<Rightarrow> string \<Rightarrow> error + buffer" where
  "readFileSync e p = (case fs e p of Some (File b) \<Rightarrow> Inr b | _ \<Rightarrow> Inl (IOError p))"

text \<open>\<^verbatim>\<open>Buffer.allocUnsafe(n)\<close>: \<open>n\<close> bytes of whatever the heap held.\<close>

definition allocUnsafe :: "env \<Rightarrow> nat \<Rightarrow> buffer" where
  "allocUnsafe e n = map (heap_garbage e) [0..<n]"

text \<open>\<^verbatim>\<open>source.copy(target, targetStart)\<close>: writes the source over the target from
  \<open>targetStart\<close>, drops what does not fit, and writes nothing when \<open>targetStart\<close> is at or
  past the end of the target.\<close>

definition buffer_copy :: "buffer \<Rightarrow> buffer \<Rightarrow> nat \<Rightarrow> buffer" where
  "buffer_copy source target targetStart =
     take (length target)
       (take targetStart target @ source @ drop (targetStart + length source) target)"

text \<open>\<^verbatim>\<open>new Reader(buffer)\<close> throws on a buffer that is not a database.\<close>

definition new_Reader :: "env \<Rightarrow> buffer \<Rightarrow> error + reader" where
  "new_Reader e b = (if Reader_accepts e b then Inr (Reader b) else Inl InvalidDatabase)"

definition reader_get :: "env \<Rightarrow> reader \<Rightarrow> string \<Rightarrow> error + json" where
  "reader_get e r ip = Reader_get e (reader_buffer r) ip"

section \<open>The module state\<close>

datatype db_type = MaxMind | IPInfo

datatype log_line =
    LogAlreadyPreloaded
  | LogWaiting
  | LogPreloading
  | LogPreloaded
  | LogUsingChunked
  | LogNoChunked
  | LogPreloadFailed error

text \<open>The module-level variables of the three files. A promise is held as the outcome it
  settles with. \<open>console\<close> (the lines logged) and \<open>provider_queries\<close> (the addresses passed
  to \<^verbatim>\<open>reader.get\<close>, in order) record effects the source has on the outside.
  \<open>ipCountryCache\<close> is a JavaScript \<^verbatim>\<open>Map\<close>: its entries in insertion order.\<close>

record state =
  cachedReader :: "reader option"
  cachedBuffer :: "buffer option"
  isPreloaded :: bool
  preloadPromise :: "(error + unit) option"
  console :: "log_line list"
  geoIPReader :: "reader option"
  databaseType :: db_type
  isInitializing :: bool
  initPromise :: "(error + reader) option"
  ipCountryCache :: "(string \<times> json) list"
  provider_queries :: "string list"

definition initial_state :: state where
  "initial_state =
     \<lparr>cachedReader = None, cachedBuffer = None, isPreloaded = False, preloadPromise = None,
      console = [], geoIPReader = None, databaseType = MaxMind, isInitializing = False,
      initPromise = None, ipCountryCache = [], provider_queries = []\<rparr>"

section \<open>chunked-loader.ts\<close>

text \<open>The body of the \<^verbatim>\<open>for\<close> loop of \<^verbatim>\<open>loadGeoIPFromChunks\<close>, from index \<open>i\<close> with the
  buffer and the running offset. \<^verbatim>\<open>metadata.chunks[i]\<close> past the end of the array is
  \<^verbatim>\<open>undefined\<close>, and reading its \<^verbatim>\<open>filename\<close> throws a TypeError.\<close>

function load_loop ::
  "env \<Rightarrow> string \<Rightarrow> ChunkMetadata \<Rightarrow> nat \<Rightarrow> buffer \<Rightarrow> nat \<Rightarrow> error + buffer" where
  "load_loop e chunksDir metadata i fullBuffer offset =
     (if i < numChunks metadata then
        (if i < length (chunks metadata) then
           (let chunkInfo = chunks metadata ! i;
                chunkPath = path_join [chunksDir, filename chunkInfo]
            in if \<not> existsSync e chunkPath then Inl (ChunkNotFound chunkPath)
               else
                 (case readFileSync e chunkPath of
                    Inl err \<Rightarrow> Inl err
                  | Inr compressedChunk \<Rightarrow>
                      (case gunzipSync e compressedChunk of
                         Inl err \<Rightarrow> Inl err
                       | Inr decompressedChunk \<Rightarrow>
                           if length decompressedChunk \<noteq> originalSize chunkInfo
                           then Inl (ChunkSizeMismatch i (originalSize chunkInfo)
                                       (length decompressedChunk))
                           else load_loop e chunksDir metadata (Suc i)
                                  (buffer_copy decompressedChunk fullBuffer offset)
                                  (offset + length decompressedChunk))))
         else Inl TypeError)
      else Inr fullBuffer)"
  by pat_completeness auto
termination
  by (relation "measure (\<lambda>(e, chunksDir, metadata, i, fullBuffer, offset). numChunks metadata - i)")
    auto

declare load_loop.simps [simp del]

definition loadGeoIPFromChunks :: "env \<Rightarrow> string \<Rightarrow> state \<Rightarrow> (error + reader) \<times> state" where
  "loadGeoIPFromChunks e chunksDir st =
     (case cachedReader st of
        Some r \<Rightarrow> (Inr r, st)
      | None \<Rightarrow>
          (let metadataPath = path_join [chunksDir, ''metadata.json'']
           in if \<not> existsSync e metadataPath then (Inl (MetadataNotFound metadataPath), st)
              else
                (case readFileSync e metadataPath of
                   Inl err \<Rightarrow> (Inl err, st)
                 | Inr text \<Rightarrow>
                     (case JSON_parse e text of
                        Inl err \<Rightarrow> (Inl err, st)
                      | Inr metadata \<Rightarrow>
                          (case load_loop e chunksDir metadata 0
                                  (allocUnsafe e (totalSize metadata)) 0 of
                             Inl err \<Rightarrow> (Inl err, st)
                           | Inr fullBuffer \<Rightarrow>
                               (case new_Reader e fullBuffer of
                                  Inl err \<Rightarrow> (Inl err, st)
                                | Inr r \<Rightarrow>
                                    (Inr r, st\<lparr>cachedReader := Some r,
                                               cachedBuffer := Some fullBuffer\<rparr>)))))))"

definition hasChunkedDatabase :: "env \<Rightarrow> string \<Rightarrow> bool" where
  "hasChunkedDatabase e chunksDir = existsSync e (path_join [chunksDir, ''metadata.json''])"

definition clearChunkedCache :: "state \<Rightarrow> state" where
  "clearChunkedCache st = st\<lparr>cachedReader := None, cachedBuffer := None\<rparr>"

subsection \<open>The decompression steps of a load\<close>




section \<open>preload.ts\<close>

definition console_log :: "log_line \<Rightarrow> state \<Rightarrow> state" where
  "console_log l st = st\<lparr>console := console st @ [l]\<rparr>"

text \<open>\<^verbatim>\<open>preloadGeoIPDatabase\<close>, with the asynchronous function it starts run to its end.
  Where no chunked database exists that function has no \<^verbatim>\<open>await\<close>: its \<^verbatim>\<open>finally\<close>
  clears \<open>preloadPromise\<close> before the caller assigns the fulfilled promise to it, which
  therefore stays. On the chunked path the assignment comes first and \<^verbatim>\<open>finally\<close> clears
  it.\<close>

definition preloadGeoIPDatabase :: "env \<Rightarrow> state \<Rightarrow> (error + unit) \<times> state" where
  "preloadGeoIPDatabase e st =
     (if isPreloaded st then (Inr (), console_log LogAlreadyPreloaded st)
      else
        (case preloadPromise st of
           Some p \<Rightarrow> (p, console_log LogWaiting st)
         | None \<Rightarrow>
             (let chunksDir = path_join [cwd e, ''lib'', ''maxmind-db'', ''chunks'']
              in if hasChunkedDatabase e chunksDir then
                   (case loadGeoIPFromChunks e chunksDir (console_log LogPreloading st) of
                      (Inr r, st') \<Rightarrow>
                        (Inr (), (console_log LogUsingChunked (console_log LogPreloaded st'))
                                   \<lparr>isPreloaded := True, preloadPromise := None\<rparr>)
                    | (Inl err, st') \<Rightarrow>
                        (Inr (), (console_log (LogPreloadFailed err) st')\<lparr>preloadPromise := None\<rparr>))
                 else (Inr (), (console_log LogNoChunked st)\<lparr>preloadPromise := Some (Inr ())\<rparr>))))"

definition isGeoIPPreloaded :: "state \<Rightarrow> bool" where
  "isGeoIPPreloaded st = isPreloaded st"

section \<open>ip-to-country.ts\<close>

definition MAX_CACHE_SIZE :: nat where
  "MAX_CACHE_SIZE = 10000"

subsection \<open>The operations of a JavaScript Map that the cache uses\<close>

definition Map_has :: "(string \<times> json) list \<Rightarrow> string \<Rightarrow> bool" where
  "Map_has m k = (map_of m k \<noteq> None)"

definition Map_get :: "(string \<times> json) list \<Rightarrow> string \<Rightarrow> json" where
  "Map_get m k = (case map_of m k of Some v \<Rightarrow> v | None \<Rightarrow> JUndefined)"

text \<open>\<^verbatim>\<open>set\<close> on a key the map holds replaces the value where the entry stands; a new key
  goes to the end.\<close>

fun Map_set :: "string \<Rightarrow> json \<Rightarrow> (string \<times> json) list \<Rightarrow> (string \<times> json) list" where
  "Map_set k v [] = [(k, v)]"
| "Map_set k v (p # ps) = (if fst p = k then (k, v) # ps else p # Map_set k v ps)"

definition Map_delete :: "string \<Rightarrow> (string \<times> json) list \<Rightarrow> (string \<times> json) list" where
  "Map_delete k m = filter (\<lambda>p. fst p \<noteq> k) m"

text \<open>\<^verbatim>\<open>map.keys().next().value\<close>: the first key, \<^verbatim>\<open>undefined\<close> on an empty map.\<close>

definition Map_first_key :: "(string \<times> json) list \<Rightarrow> string option" where
  "Map_first_key m = (case m of [] \<Rightarrow> None | p # ps \<Rightarrow> Some (fst p))"

subsection \<open>JavaScript truthiness and property access\<close>

fun truthy :: "json \<Rightarrow> bool" where
  "truthy JUndefined = False"
| "truthy JNull = False"
| "truthy (JBool b) = b"
| "truthy (JNumber n) = (n \<noteq> 0)"
| "truthy (JString s) = (s \<noteq> [])"
| "truthy (JArray xs) = True"
| "truthy (JObject kvs) = True"

text \<open>\<open>x?.k\<close>: \<^verbatim>\<open>undefined\<close> unless \<open>x\<close> is an object with the property \<open>k\<close>.\<close>

fun get_prop :: "json \<Rightarrow> string \<Rightarrow> json" where
  "get_prop (JObject kvs) k = (case map_of kvs k of Some v \<Rightarrow> v | None \<Rightarrow> JUndefined)"
| "get_prop v k = JUndefined"

text \<open>\<open>x || null\<close>\<close>

definition or_null :: "json \<Rightarrow> json" where
  "or_null v = (if truthy v then v else JNull)"

subsection \<open>Selecting and opening the database\<close>

record db_location =
  db_path :: string
  db_type :: db_type
  db_chunked :: bool

definition detectDatabaseType :: "env \<Rightarrow> error + db_location" where
  "detectDatabaseType e =
     (let basePath = path_join [cwd e, ''lib'', ''maxmind-db''];
          chunksDir = path_join [basePath, ''chunks'']
      in if hasChunkedDatabase e chunksDir
         then Inr \<lparr>db_path = chunksDir, db_type = MaxMind, db_chunked = True\<rparr>
         else
           (let ipinfoCountry = path_join [basePath, ''country.mmdb''];
                ipinfoLite = path_join [basePath, ''ipinfo_lite.mmdb''];
                maxmindCity = path_join [basePath, ''GeoLite2-City.mmdb'']
            in if existsSync e ipinfoCountry
               then Inr \<lparr>db_path = ipinfoCountry, db_type = IPInfo, db_chunked = False\<rparr>
               else if existsSync e ipinfoLite
               then Inr \<lparr>db_path = ipinfoLite, db_type = IPInfo, db_chunked = False\<rparr>
               else if existsSync e maxmindCity
               then Inr \<lparr>db_path = maxmindCity, db_type = MaxMind, db_chunked = False\<rparr>
               else Inl NoDatabaseFound))"

text \<open>\<^verbatim>\<open>initGeoIPReaderAsync\<close>, with the asynchronous function it starts run to its end.
  An error before the \<^verbatim>\<open>await\<close> (no database, an unreadable or invalid file) runs the
  \<^verbatim>\<open>catch\<close> before the caller assigns the rejected promise to \<open>initPromise\<close>; an error of
  \<^verbatim>\<open>loadGeoIPFromChunks\<close> arrives after the \<^verbatim>\<open>await\<close>, and the \<^verbatim>\<open>catch\<close> clears
  \<open>initPromise\<close>.\<close>

definition initGeoIPReaderAsync :: "env \<Rightarrow> state \<Rightarrow> (error + reader) \<times> state" where
  "initGeoIPReaderAsync e st =
     (case geoIPReader st of
        Some r \<Rightarrow> (Inr r, st)
      | None \<Rightarrow>
          (case (if isInitializing st then initPromise st else None) of
             Some p \<Rightarrow> (p, st)
           | None \<Rightarrow>
               (let st1 = st\<lparr>isInitializing := True\<rparr>
                in case detectDatabaseType e of
                     Inl err \<Rightarrow>
                       (Inl err, st1\<lparr>isInitializing := False, initPromise := Some (Inl err)\<rparr>)
                   | Inr d \<Rightarrow>
                       if db_chunked d then
                         (case loadGeoIPFromChunks e (db_path d) st1 of
                            (Inr r, st2) \<Rightarrow>
                              (Inr r, st2\<lparr>geoIPReader := Some r, databaseType := db_type d,
                                          isInitializing := False, initPromise := Some (Inr r)\<rparr>)
                          | (Inl err, st2) \<Rightarrow>
                              (Inl err, st2\<lparr>isInitializing := False, initPromise := None\<rparr>))
                       else
                         (case readFileSync e (db_path d) of
                            Inl err \<Rightarrow>
                              (Inl err,
                               st1\<lparr>isInitializing := False, initPromise := Some (Inl err)\<rparr>)
                          | Inr dbBuffer \<Rightarrow>
                              (case new_Reader e dbBuffer of
                                 Inl err \<Rightarrow>
                                   (Inl err,
                                    st1\<lparr>isInitializing := False, initPromise := Some (Inl err)\<rparr>)
                               | Inr r \<Rightarrow>
                                   (Inr r,
                                    st1\<lparr>geoIPReader := Some r, databaseType := db_type d,
                                        isInitializing := False,
                                        initPromise := Some (Inr r)\<rparr>))))))"

definition initGeoIPReader :: "env \<Rightarrow> state \<Rightarrow> (error + reader) \<times> state" where
  "initGeoIPReader e st =
     (case geoIPReader st of
        Some r \<Rightarrow> (Inr r, st)
      | None \<Rightarrow>
          (case detectDatabaseType e of
             Inl err \<Rightarrow> (Inl err, st)
           | Inr d \<Rightarrow>
               if db_chunked d then
                 (case geoIPReader st of
                    None \<Rightarrow> (Inl NotPreloaded, st)
                  | Some r \<Rightarrow> (Inr r, st))
               else
                 (case readFileSync e (db_path d) of
                    Inl err \<Rightarrow> (Inl err, st)
                  | Inr dbBuffer \<Rightarrow>
                      (case new_Reader e dbBuffer of
                         Inl err \<Rightarrow> (Inl err, st)
                       | Inr r \<Rightarrow>
                           (Inr r, st\<lparr>geoIPReader := Some r, databaseType := db_type d\<rparr>)))))"

subsection \<open>Reading the country code of a record\<close>

definition extractCountryCode :: "db_type \<Rightarrow> json \<Rightarrow> json" where
  "extractCountryCode dbt result =
     (if \<not> truthy result then JNull
      else if dbt = IPInfo then or_null (get_prop result ''country'')
      else if truthy (get_prop (get_prop result ''country'') ''iso_code'')
      then get_prop (get_prop result ''country'') ''iso_code''
      else if truthy (get_prop (get_prop result ''registered_country'') ''iso_code'')
      then get_prop (get_prop result ''registered_country'') ''iso_code''
      else JNull)"

subsection \<open>The lookups\<close>

text \<open>The lines that store a result: when the cache is full the first key in insertion
  order is deleted (if it is truthy, that is, not the empty string), then the entry is
  set.\<close>

definition cache_store :: "(string \<times> json) list \<Rightarrow> string \<Rightarrow> json \<Rightarrow> (string \<times> json) list" where
  "cache_store cache ip countryCode =
     Map_set ip countryCode
       (if length cache \<ge> MAX_CACHE_SIZE then
          (case Map_first_key cache of
             Some firstKey \<Rightarrow> if firstKey \<noteq> [] then Map_delete firstKey cache else cache
           | None \<Rightarrow> cache)
        else cache)"

text \<open>The body of the \<^verbatim>\<open>try\<close> block, after the reader has been obtained.\<close>

definition query_and_store :: "env \<Rightarrow> reader \<Rightarrow> string \<Rightarrow> state \<Rightarrow> (error + json) \<times> state" where
  "query_and_store e r ip st =
     (let st1 = st\<lparr>provider_queries := provider_queries st @ [ip]\<rparr>
      in case reader_get e r ip of
           Inl err \<Rightarrow> (Inl err, st1)
         | Inr result \<Rightarrow>
             (let countryCode = extractCountryCode (databaseType st1) result
              in (Inr countryCode,
                  st1\<lparr>ipCountryCache := cache_store (ipCountryCache st1) ip countryCode\<rparr>)))"

text \<open>\<^verbatim>\<open>getCountryCodeFromIP\<close> and \<^verbatim>\<open>getCountryCodeFromIPAsync\<close> are the same lines but
  for the call that obtains the reader, \<^verbatim>\<open>initGeoIPReader()\<close> or
  \<^verbatim>\<open>await initGeoIPReaderAsync()\<close>; \<open>lookup\<close> is that text with the call as a parameter.\<close>

datatype convention = Blocking | NonBlocking

definition obtain_reader :: "convention \<Rightarrow> env \<Rightarrow> state \<Rightarrow> (error + reader) \<times> state" where
  "obtain_reader cv e st =
     (case cv of Blocking \<Rightarrow> initGeoIPReader e st | NonBlocking \<Rightarrow> initGeoIPReaderAsync e st)"

definition try_lookup :: "convention \<Rightarrow> env \<Rightarrow> string \<Rightarrow> state \<Rightarrow> (error + json) \<times> state" where
  "try_lookup cv e ip st =
     (case obtain_reader cv e st of
        (Inl err, st') \<Rightarrow> (Inl err, st')
      | (Inr r, st') \<Rightarrow> query_and_store e r ip st')"

text \<open>The result is \<open>Inl\<close> where the call throws (or its promise rejects).\<close>

definition lookup :: "convention \<Rightarrow> env \<Rightarrow> string \<Rightarrow> state \<Rightarrow> (error + json) \<times> state" where
  "lookup cv e ip st =
     (if ip = [] \<or> ip = ''::'' then (Inr JNull, st)
      else if Map_has (ipCountryCache st) ip
      then (Inr (or_null (Map_get (ipCountryCache st) ip)), st)
      else
        (case try_lookup cv e ip st of
           (Inr countryCode, st') \<Rightarrow> (Inr countryCode, st')
         | (Inl err, st') \<Rightarrow> (Inr JNull, st')))"

definition getCountryCodeFromIPAsync :: "env \<Rightarrow> string \<Rightarrow> state \<Rightarrow> (error + json) \<times> state" where
  "getCountryCodeFromIPAsync = lookup NonBlocking"

definition getCountryCodeFromIP :: "env \<Rightarrow> string \<Rightarrow> state \<Rightarrow> (error + json) \<times> state" where
  "getCountryCodeFromIP = lookup Blocking"

definition getCacheStats :: "state \<Rightarrow> nat \<times> nat" where
  "getCacheStats st = (length (ipCountryCache st), MAX_CACHE_SIZE)"

definition clearCache :: "state \<Rightarrow> state" where
  "clearCache st = st\<lparr>ipCountryCache := []\<rparr>"

definition getCountryCodeFromServerIPs ::
  "env \<Rightarrow> string option \<Rightarrow> string option \<Rightarrow> state \<Rightarrow> (error + json) \<times> state" where
  "getCountryCodeFromServerIPs e ipv4 ipv6 st =
     (case (case ipv4 of
              Some a \<Rightarrow> if a \<noteq> [] then getCountryCodeFromIP e a st else (Inr JNull, st)
            | None \<Rightarrow> (Inr JNull, st)) of
        (Inl err, st1) \<Rightarrow> (Inl err, st1)
      | (Inr code4, st1) \<Rightarrow>
          if truthy code4 then (Inr code4, st1)
          else
            (case (case ipv6 of
                     Some b \<Rightarrow>
                       if b \<noteq> [] \<and> b \<noteq> ''::'' then getCountryCodeFromIP e b st1
                       else (Inr JNull, st1)
                   | None \<Rightarrow> (Inr JNull, st1)) of
               (Inl err, st2) \<Rightarrow> (Inl err, st2)
             | (Inr code6, st2) \<Rightarrow>
                 if truthy code6 then (Inr code6, st2) else (Inr JNull, st2)))"

section \<open>Sequences of calls\<close>

text \<open>The exported functions that change the module state. Each call runs to its end
  before the next one starts, in the environment it is made in: no other call is
  interleaved at the \<^verbatim>\<open>await\<close> of an asynchronous one. (\<^verbatim>\<open>hasChunkedDatabase\<close>,
  \<^verbatim>\<open>getChunkedMetadata\<close>, \<^verbatim>\<open>isGeoIPPreloaded\<close> and \<^verbatim>\<open>getCacheStats\<close> only read.)\<close>

datatype call =
    Call_loadGeoIPFromChunks string
  | Call_clearChunkedCache
  | Call_preloadGeoIPDatabase
  | Call_getCountryCodeFromIP string
  | Call_getCountryCodeFromIPAsync string
  | Call_getCountryCodeFromServerIPs "string option" "string option"
  | Call_clearCache

fun step :: "env \<Rightarrow> call \<Rightarrow> state \<Rightarrow> state" where
  "step e (Call_loadGeoIPFromChunks chunksDir) st = snd (loadGeoIPFromChunks e chunksDir st)"
| "step e Call_clearChunkedCache st = clearChunkedCache st"
| "step e Call_preloadGeoIPDatabase st = snd (preloadGeoIPDatabase e st)"
| "step e (Call_getCountryCodeFromIP ip) st = snd (getCountryCodeFromIP e ip st)"
| "step e (Call_getCountryCodeFromIPAsync ip) st = snd (getCountryCodeFromIPAsync e ip st)"
| "step e (Call_getCountryCodeFromServerIPs ipv4 ipv6) st =
     snd (getCountryCodeFromServerIPs e ipv4 ipv6 st)"
| "step e Call_clearCache st = clearCache st"

fun run :: "(env \<times> call) list \<Rightarrow> state \<Rightarrow> state" where
  "run [] st = st"
| "run (ec # ecs) st = run ecs (step (fst ec) (snd ec) st)"

definition lookup_call :: "convention \<Rightarrow> string \<Rightarrow> call" where
  "lookup_call cv ip =
     (case cv of Blocking \<Rightarrow> Call_getCountryCodeFromIP ip
               | NonBlocking \<Rightarrow> Call_getCountryCodeFromIPAsync ip)"

section \<open>The notions of the specification\<close>

text \<open>The decompressed bytes of a chunk file, where the file is there and decompresses.\<close>

definition chunk_data :: "env \<Rightarrow> string \<Rightarrow> ChunkInfo \<Rightarrow> buffer option" where
  "chunk_data e chunksDir c =
     (case fs e (path_join [chunksDir, filename c]) of
        Some (File z) \<Rightarrow> (case gunzipSync e z of Inr d \<Rightarrow> Some d | Inl err \<Rightarrow> None)
      | _ \<Rightarrow> None)"

definition chunk_bytes :: "env \<Rightarrow> string \<Rightarrow> ChunkInfo \<Rightarrow> buffer" where
  "chunk_bytes e chunksDir c = (case chunk_data e chunksDir c of Some d \<Rightarrow> d | None \<Rightarrow> [])"

text \<open>A chunk file that decompresses to exactly its recorded \<open>originalSize\<close>.\<close>

definition chunk_intact :: "env \<Rightarrow> string \<Rightarrow> ChunkInfo \<Rightarrow> bool" where
  "chunk_intact e chunksDir c =
     (case chunk_data e chunksDir c of Some d \<Rightarrow> length d = originalSize c | None \<Rightarrow> False)"

text \<open>The invariants of a manifest: \<open>numChunks\<close> is the number of entries, the entries are
  ordered by \<open>index\<close> ascending, their indices are \<open>0..numChunks-1\<close> with no gaps, and
  their sizes add up to \<open>totalSize\<close>.\<close>

definition manifest_invariants :: "ChunkMetadata \<Rightarrow> bool" where
  "manifest_invariants m \<longleftrightarrow>
     numChunks m = length (chunks m) \<and>
     map index (chunks m) = [0..<numChunks m] \<and>
     sum_list (map originalSize (chunks m)) = totalSize m"

text \<open>The concatenation of the decompressed chunks in index order.\<close>

definition reconstructed_blob :: "env \<Rightarrow> string \<Rightarrow> ChunkMetadata \<Rightarrow> buffer" where
  "reconstructed_blob e chunksDir m =
     concat (map (chunk_bytes e chunksDir) (sort_key index (chunks m)))"

text \<open>The selector's candidates in priority order, each with the path whose existence
  decides it; the first match wins.\<close>

definition db_root :: "env \<Rightarrow> string" where
  "db_root e = path_join [cwd e, ''lib'', ''maxmind-db'']"

definition candidates :: "env \<Rightarrow> (string \<times> db_location) list" where
  "candidates e =
     [(path_join [db_root e, ''chunks/metadata.json''],
         \<lparr>db_path = path_join [db_root e, ''chunks''], db_type = MaxMind, db_chunked = True\<rparr>),
      (path_join [db_root e, ''country.mmdb''],
         \<lparr>db_path = path_join [db_root e, ''country.mmdb''], db_type = IPInfo,
          db_chunked = False\<rparr>),
      (path_join [db_root e, ''ipinfo_lite.mmdb''],
         \<lparr>db_path = path_join [db_root e, ''ipinfo_lite.mmdb''], db_type = IPInfo,
          db_chunked = False\<rparr>),
      (path_join [db_root e, ''GeoLite2-City.mmdb''],
         \<lparr>db_path = path_join [db_root e, ''GeoLite2-City.mmdb''], db_type = MaxMind,
          db_chunked = False\<rparr>)]"

definition select_by_priority :: "env \<Rightarrow> error + db_location" where
  "select_by_priority e =
     (case find (\<lambda>c. existsSync e (fst c)) (candidates e) of
        Some c \<Rightarrow> Inr (snd c)
      | None \<Rightarrow> Inl NoDatabaseFound)"

text \<open>A key the lookups can store: neither empty nor the unspecified IPv6 address.\<close>

definition valid_ip :: "string \<Rightarrow> bool" where
  "valid_ip ip \<longleftrightarrow> ip \<noteq> [] \<and> ip \<noteq> ''::''"

section \<open>A small installation\<close>

definition example_manifest :: ChunkMetadata where
  "example_manifest =
     \<lparr>originalFile = ''GeoLite2-City.mmdb'', totalSize = 6, chunkSize = 4, numChunks = 2,
      totalCompressedSize = 5,
      chunks = [\<lparr>index = 0, originalSize = 4, compressedSize = 3, filename = ''chunk_000.gz''\<rparr>,
                \<lparr>index = 1, originalSize = 2, compressedSize = 2, filename = ''chunk_001.gz''\<rparr>],
      createdAt = ''2025-01-01''\<rparr>"

text \<open>The manifest is the parse of the two bytes \<open>{}\<close>. A stand-in for decompression: a header byte, then the data, which is doubled.\<close>

definition example_gunzip :: "buffer \<Rightarrow> error + buffer" where
  "example_gunzip z =
     (case z of [] \<Rightarrow> Inl ZlibError | h # t \<Rightarrow> if h = 31 then Inr (t @ t) else Inl ZlibError)"

definition example_get :: "buffer \<Rightarrow> string \<Rightarrow> error + json" where
  "example_get b ip =
     (if ip = ''8.8.8.8''
      then Inr (JObject [(''country'', JObject [(''iso_code'', JString ''US'')])])
      else if ip = ''0.0.0.0'' then Inl (LookupError ip)
      else Inr JNull)"

definition example_env :: "(string \<times> node) list \<Rightarrow> env" where
  "example_env files =
     \<lparr>cwd = ''/app'', fs = map_of files,
      JSON_parse = (\<lambda>b. if b = [123, 125] then Inr example_manifest else Inl SyntaxError),
      gunzipSync = example_gunzip, heap_garbage = (\<lambda>n. 0),
      Reader_accepts = (\<lambda>b. b \<noteq> []), Reader_get = example_get\<rparr>"

text \<open>Four installations: a chunked database, the same with its second chunk
  corrupted, the monolithic MaxMind file alone, and the manifest of a chunked database
  beside the monolithic country file.\<close>

definition chunked_files :: "(string \<times> node) list" where
  "chunked_files =
     [(''/app/lib/maxmind-db/chunks/metadata.json'', File [123, 125]),
      (''/app/lib/maxmind-db/chunks/chunk_000.gz'', File [31, 1, 2]),
      (''/app/lib/maxmind-db/chunks/chunk_001.gz'', File [31, 3])]"

definition corrupt_files :: "(string \<times> node) list" where
  "corrupt_files =
     [(''/app/lib/maxmind-db/chunks/metadata.json'', File [123, 125]),
      (''/app/lib/maxmind-db/chunks/chunk_000.gz'', File [31, 1, 2]),
      (''/app/lib/maxmind-db/chunks/chunk_001.gz'', File [31, 3, 4])]"

definition city_files :: "(string \<times> node) list" where
  "city_files = [(''/app/lib/maxmind-db/GeoLite2-City.mmdb'', File [77, 77])]"

definition both_files :: "(string \<times> node) list" where
  "both_files =
     [(''/app/lib/maxmind-db/country.mmdb'', File [77]),
      (''/app/lib/maxmind-db/chunks/metadata.json'', File [123, 125])]"

section \<open>Invariants of the module state\<close>

text \<open>What the lookups keep true of the cache: no key twice, at most \<open>MAX_CACHE_SIZE\<close>
  entries, every key an address the lookups accept, every value a truthy code or null
  (so that \<open>value || null\<close> is the value).\<close>

definition cache_wf :: "(string \<times> json) list \<Rightarrow> bool" where
  "cache_wf c \<longleftrightarrow>
     distinct (map fst c) \<and> length c \<le> MAX_CACHE_SIZE \<and>
     (\<forall>p \<in> set c. valid_ip (fst p) \<and> or_null (snd p) = snd p)"

text \<open>The promise kept in \<open>preloadPromise\<close> is never a rejected one.\<close>

definition state_ok :: "state \<Rightarrow> bool" where
  "state_ok st \<longleftrightarrow>
     cache_wf (ipCountryCache st) \<and>
     (preloadPromise st = None \<or> preloadPromise st = Some (Inr ()))"

text \<open>A state whose reader has been opened, \<open>n\<close> distinct keys, and two calls that
  open the reader and leave the cache empty.\<close>

definition warm_state :: state where
  "warm_state = initial_state\<lparr>geoIPReader := Some (Reader [77, 77])\<rparr>"

definition probe_keys :: "nat \<Rightarrow> string list" where
  "probe_keys n = map (\<lambda>i. replicate (Suc i) (CHR ''1'')) [0..<n]"

definition warm_up :: "(env \<times> call) list" where
  "warm_up = [(example_env city_files, Call_getCountryCodeFromIP ''8.8.8.8''),
              (example_env city_files, Call_clearCache)]"

section \<open>The chunk loader rebuilds the blob\<close>

lemma chunk_data_SomeD:
  assumes "chunk_data e dir c = Some d"
  obtains z where "fs e (path_join [dir, filename c]) = Some (File z)" "gunzipSync e z = Inr d"
  using assms by (auto simp: chunk_data_def split: option.splits node.splits sum.splits)

lemma load_loop_step:
  assumes "i < numChunks m" "i < length (chunks m)"
    and "chunk_data e dir (chunks m ! i) = Some d"
  shows "load_loop e dir m i buf off =
    (if length d \<noteq> originalSize (chunks m ! i)
     then Inl (ChunkSizeMismatch i (originalSize (chunks m ! i)) (length d))
     else load_loop e dir m (Suc i) (buffer_copy d buf off) (off + length d))"
proof -
  from assms(3) obtain z where z: "fs e (path_join [dir, filename (chunks m ! i)]) = Some (File z)"
    "gunzipSync e z = Inr d" by (rule chunk_data_SomeD)
  show ?thesis
    using assms(1,2) z
    by (subst load_loop.simps) (simp add: existsSync_def readFileSync_def Let_def)
qed

lemma load_loop_done: "numChunks m \<le> i \<Longrightarrow> load_loop e dir m i buf off = Inr buf"
  by (subst load_loop.simps) simp

lemma buffer_copy_fits:
  "off + length src \<le> length tgt \<Longrightarrow>
   buffer_copy src tgt off = take off tgt @ src @ drop (off + length src) tgt"
  by (simp add: buffer_copy_def)

lemma chunk_intact_bytes:
  "chunk_intact e dir c \<Longrightarrow> chunk_data e dir c = Some (chunk_bytes e dir c) \<and>
     length (chunk_bytes e dir c) = originalSize c"
  by (auto simp: chunk_intact_def chunk_bytes_def split: option.splits)

lemma load_loop_intact:
  assumes n: "numChunks m = length (chunks m)"
    and ok: "\<forall>c \<in> set (chunks m). chunk_intact e dir c"
  shows "i \<le> length (chunks m) \<Longrightarrow>
     sum_list (map originalSize (chunks m)) \<le> length buf \<Longrightarrow>
     off = sum_list (map originalSize (take i (chunks m))) \<Longrightarrow>
     load_loop e dir m i buf off =
       Inr (take off buf @ concat (map (chunk_bytes e dir) (drop i (chunks m)))
            @ drop (sum_list (map originalSize (chunks m))) buf)"
proof (induction k \<equiv> "length (chunks m) - i" arbitrary: i buf off)
  case 0
  then have i: "i = length (chunks m)" by simp
  with 0 n show ?case by (simp add: load_loop_done)
next
  case (Suc k)
  let ?cs = "chunks m"
  let ?c = "?cs ! i"
  let ?d = "chunk_bytes e dir ?c"
  note len = Suc.prems(2)
  from Suc have i: "i < length ?cs" by simp
  then have cin: "?c \<in> set ?cs" by simp
  with ok have d: "chunk_data e dir ?c = Some ?d" "length ?d = originalSize ?c"
    using chunk_intact_bytes by blast+
  have split: "sum_list (map originalSize ?cs) =
      sum_list (map originalSize (take i ?cs)) + originalSize ?c
        + sum_list (map originalSize (drop (Suc i) ?cs))"
    using i by (metis (no_types, lifting) Cons_nth_drop_Suc append_take_drop_id list.simps(9)
        map_append sum_list.Cons sum_list.append add.assoc)
  have off': "off + length ?d = sum_list (map originalSize (take (Suc i) ?cs))"
    using i Suc.prems(3) d(2) by (simp add: take_Suc_conv_app_nth)
  have fits: "off + length ?d \<le> length buf"
    using split Suc.prems(3) d(2) len by linarith
  let ?buf' = "buffer_copy ?d buf off"
  have buf': "?buf' = take off buf @ ?d @ drop (off + length ?d) buf"
    using fits by (rule buffer_copy_fits)
  have lenbuf': "length ?buf' = length buf" using fits by (simp add: buf')
  have step: "load_loop e dir m i buf off = load_loop e dir m (Suc i) ?buf' (off + length ?d)"
    using load_loop_step[OF _ i d(1)] i n d(2) by simp
  have IH: "load_loop e dir m (Suc i) ?buf' (off + length ?d) =
      Inr (take (off + length ?d) ?buf' @ concat (map (chunk_bytes e dir) (drop (Suc i) ?cs))
            @ drop (sum_list (map originalSize ?cs)) ?buf')"
    using Suc.hyps(1)[of "Suc i" ?buf' "off + length ?d"] Suc.hyps(2) i off' lenbuf' len
    by simp
  have t: "take (off + length ?d) ?buf' = take off buf @ ?d"
    using fits by (simp add: buf')
  have ge: "off + length ?d \<le> sum_list (map originalSize ?cs)"
    using split Suc.prems(3) d(2) by linarith
  have dr: "drop (sum_list (map originalSize ?cs)) ?buf' = drop (sum_list (map originalSize ?cs)) buf"
    using fits ge by (simp add: buf')
  have dI: "drop i ?cs = ?c # drop (Suc i) ?cs" using i by (simp add: Cons_nth_drop_Suc)
  show ?case by (simp add: step IH t dr dI)
qed


lemma concat_nth_slice:
  "j < length xss \<Longrightarrow>
   take (length (xss ! j)) (drop (length (concat (take j xss))) (concat xss)) = xss ! j"
proof -
  assume j: "j < length xss"
  have "concat xss = concat (take j xss) @ xss ! j @ concat (drop (Suc j) xss)"
    using j by (metis append_take_drop_id Cons_nth_drop_Suc concat.simps(2) concat_append)
  then have "drop (length (concat (take j xss))) (concat xss) = xss ! j @ concat (drop (Suc j) xss)"
    by (metis append_eq_conv_conj)
  then show ?thesis by simp
qed

lemma load_loop_all:
  assumes "numChunks m = length (chunks m)"
    and "\<forall>c \<in> set (chunks m). chunk_intact e dir c"
    and "sum_list (map originalSize (chunks m)) = totalSize m"
  shows "load_loop e dir m 0 (allocUnsafe e (totalSize m)) 0 =
           Inr (concat (map (chunk_bytes e dir) (chunks m)))"
  using load_loop_intact[OF assms(1,2), of 0 "allocUnsafe e (totalSize m)" 0] assms(3)
  by (simp add: allocUnsafe_def)

lemma loadGeoIPFromChunks_fresh:
  assumes "cachedReader st = None"
    and "fs e (path_join [dir, ''metadata.json'']) = Some (File text)"
    and "JSON_parse e text = Inr m"
  shows "loadGeoIPFromChunks e dir st =
     (case load_loop e dir m 0 (allocUnsafe e (totalSize m)) 0 of
        Inl err \<Rightarrow> (Inl err, st)
      | Inr fullBuffer \<Rightarrow>
          (if Reader_accepts e fullBuffer
           then (Inr (Reader fullBuffer),
                 st\<lparr>cachedReader := Some (Reader fullBuffer), cachedBuffer := Some fullBuffer\<rparr>)
           else (Inl InvalidDatabase, st)))"
  using assms
  by (simp add: loadGeoIPFromChunks_def existsSync_def readFileSync_def new_Reader_def Let_def
      split: sum.splits)

text \<open>
  Claim C1. For every manifest that satisfies the manifest invariants and whose chunk
  files each decompress to exactly their recorded \<open>originalSize\<close>, a load that finds no
  cached reader builds one buffer of exactly \<open>totalSize\<close> bytes, equal to the
  concatenation of the decompressed chunks in index order, each chunk standing at the
  running offset (the sum of the sizes before it), and returns the Provider built from
  that buffer, which it caches. (Should the Provider's constructor reject the buffer,
  its error is what the load throws.)
\<close>

theorem loadGeoIPFromChunks_reconstructs:
  assumes "cachedReader st = None"
    and "fs e (path_join [dir, ''metadata.json'']) = Some (File text)"
    and "JSON_parse e text = Inr m"
    and "manifest_invariants m"
    and "\<forall>c \<in> set (chunks m). chunk_intact e dir c"
  shows "length (reconstructed_blob e dir m) = totalSize m \<and>
    (\<forall>j < length (chunks m).
       take (originalSize (chunks m ! j))
         (drop (sum_list (map originalSize (take j (chunks m)))) (reconstructed_blob e dir m))
       = chunk_bytes e dir (chunks m ! j)) \<and>
    loadGeoIPFromChunks e dir st =
      (if Reader_accepts e (reconstructed_blob e dir m)
       then (Inr (Reader (reconstructed_blob e dir m)),
             st\<lparr>cachedReader := Some (Reader (reconstructed_blob e dir m)),
                cachedBuffer := Some (reconstructed_blob e dir m)\<rparr>)
       else (Inl InvalidDatabase, st))"
proof -
  let ?cs = "chunks m"
  let ?ds = "map (chunk_bytes e dir) ?cs"
  from assms(4) have n: "numChunks m = length ?cs"
    and idx: "map index ?cs = [0..<numChunks m]"
    and total: "sum_list (map originalSize ?cs) = totalSize m"
    by (simp_all add: manifest_invariants_def)
  have "sorted (map index ?cs)" by (simp add: idx)
  then have blob: "reconstructed_blob e dir m = concat ?ds"
    by (simp add: reconstructed_blob_def sort_key_id_if_sorted)
  have sizes: "map length ?ds = map originalSize ?cs"
    using assms(5) by (simp add: chunk_intact_bytes)
  have "length (concat ?ds) = sum_list (map length ?ds)"
    by (simp only: length_concat)
  then have len: "length (concat ?ds) = totalSize m"
    by (simp only: sizes total)
  have slice: "take (originalSize (?cs ! j)) (drop (sum_list (map originalSize (take j ?cs))) (concat ?ds))
      = chunk_bytes e dir (?cs ! j)" if j: "j < length ?cs" for j
  proof -
    have a: "length (?ds ! j) = originalSize (?cs ! j)"
      using j assms(5) by (simp add: chunk_intact_bytes)
    have "map length (take j ?ds) = map originalSize (take j ?cs)"
      using sizes by (metis take_map)
    moreover have "length (concat (take j ?ds)) = sum_list (map length (take j ?ds))"
      by (simp only: length_concat)
    ultimately have b: "length (concat (take j ?ds)) = sum_list (map originalSize (take j ?cs))"
      by simp
    show ?thesis
      using concat_nth_slice[of j ?ds] j a b by simp
  qed
  have load: "loadGeoIPFromChunks e dir st =
      (if Reader_accepts e (concat ?ds)
       then (Inr (Reader (concat ?ds)),
             st\<lparr>cachedReader := Some (Reader (concat ?ds)), cachedBuffer := Some (concat ?ds)\<rparr>)
       else (Inl InvalidDatabase, st))"
    by (simp add: loadGeoIPFromChunks_fresh[OF assms(1-3)] load_loop_all[OF n assms(5) total])
  show ?thesis
    using len slice load by (simp add: blob)
qed

lemma example_fs_simps:
  "fs (example_env files) = map_of files"
  "JSON_parse (example_env files) [123, 125] = Inr example_manifest"
  "gunzipSync (example_env files) = example_gunzip"
  "Reader_accepts (example_env files) b = (b \<noteq> [])"
  "cwd (example_env files) = ''/app''"
  "Reader_get (example_env files) = example_get"
  by (simp_all add: example_env_def)

theorem loadGeoIPFromChunks_reconstructs_witness:
  "manifest_invariants example_manifest \<and>
   loadGeoIPFromChunks (example_env chunked_files) ''/app/lib/maxmind-db/chunks'' initial_state =
     (Inr (Reader [1, 2, 1, 2, 3, 3]),
      initial_state\<lparr>cachedReader := Some (Reader [1, 2, 1, 2, 3, 3]),
                    cachedBuffer := Some [1, 2, 1, 2, 3, 3]\<rparr>)"
proof -
  have inv: "manifest_invariants example_manifest"
    by (simp add: manifest_invariants_def example_manifest_def upt_rec)
  have h1: "cachedReader initial_state = None" by (simp add: initial_state_def)
  have h2: "fs (example_env chunked_files) (path_join [''/app/lib/maxmind-db/chunks'', ''metadata.json''])
      = Some (File [123, 125])"
    by (simp add: example_fs_simps chunked_files_def)
  have h3: "JSON_parse (example_env chunked_files) [123, 125] = Inr example_manifest"
    by (simp add: example_fs_simps)
  have h5: "\<forall>c \<in> set (chunks example_manifest).
      chunk_intact (example_env chunked_files) ''/app/lib/maxmind-db/chunks'' c"
    by (simp add: example_manifest_def chunk_intact_def chunk_data_def example_fs_simps
        chunked_files_def example_gunzip_def)
  have blob: "reconstructed_blob (example_env chunked_files) ''/app/lib/maxmind-db/chunks''
      example_manifest = [1, 2, 1, 2, 3, 3]"
    by (simp add: reconstructed_blob_def example_manifest_def chunk_bytes_def chunk_data_def
        example_fs_simps chunked_files_def example_gunzip_def)
  show ?thesis
    using loadGeoIPFromChunks_reconstructs[OF h1 h2 h3 inv h5] inv
    by (simp add: blob example_fs_simps)
qed

section \<open>A chunk of the wrong size aborts the load\<close>

lemma load_loop_reaches_mismatch:
  assumes j: "j < numChunks m" "j < length (chunks m)"
    and d: "chunk_data e dir (chunks m ! j) = Some d" "length d \<noteq> originalSize (chunks m ! j)"
  shows "i \<le> j \<Longrightarrow> \<exists>err. load_loop e dir m i buf off = Inl err"
proof (induction k \<equiv> "j - i" arbitrary: i buf off)
  case 0
  then have "i = j" by simp
  then show ?case using load_loop_step[OF j d(1), of buf off] d(2) by simp
next
  case (Suc k)
  then have i: "i < j" "i < numChunks m" "i < length (chunks m)" using j by simp_all
  have next_fails: "\<exists>err. load_loop e dir m (Suc i) b off' = Inl err" for b off'
    using Suc.hyps(1)[of "Suc i" b off'] Suc.hyps(2) i(1) by simp
  show ?case
    using i(2,3) next_fails
    by (subst load_loop.simps) (simp add: Let_def split: sum.splits)
qed

lemma load_loop_first_mismatch:
  assumes j: "j < numChunks m" "j < length (chunks m)"
    and d: "chunk_data e dir (chunks m ! j) = Some d" "length d \<noteq> originalSize (chunks m ! j)"
    and before: "\<forall>i < j. chunk_intact e dir (chunks m ! i)"
  shows "i \<le> j \<Longrightarrow>
    load_loop e dir m i buf off = Inl (ChunkSizeMismatch j (originalSize (chunks m ! j)) (length d))"
proof (induction k \<equiv> "j - i" arbitrary: i buf off)
  case 0
  then have "i = j" by simp
  then show ?case using load_loop_step[OF j d(1), of buf off] d(2) by simp
next
  case (Suc k)
  then have i: "i < j" "i < numChunks m" "i < length (chunks m)" using j by simp_all
  from before i(1) have ok: "chunk_data e dir (chunks m ! i) = Some (chunk_bytes e dir (chunks m ! i))"
    "length (chunk_bytes e dir (chunks m ! i)) = originalSize (chunks m ! i)"
    using chunk_intact_bytes by blast+
  show ?case
    using load_loop_step[OF i(2,3) ok(1), of buf off] ok(2)
      Suc.hyps(1)[of "Suc i"] Suc.hyps(2) i(1)
    by simp
qed

text \<open>
  Claim C4. If a chunk's decompressed length differs from the \<open>originalSize\<close> the manifest
  records for it, a load that finds no cached reader throws, and the module state is what
  it was: no reader is cached, so no later call finds a partially built Provider. The
  loop stops at the first chunk it cannot use, so when every chunk before this one is
  intact the error is the size mismatch that names this chunk's index (its position in
  the manifest, which is what the message of the source prints), the expected and the
  found length.
\<close>

theorem loadGeoIPFromChunks_size_mismatch:
  assumes "cachedReader st = None"
    and "fs e (path_join [dir, ''metadata.json'']) = Some (File text)"
    and "JSON_parse e text = Inr m"
    and "j < numChunks m" and "j < length (chunks m)"
    and "chunk_data e dir (chunks m ! j) = Some d"
    and "length d \<noteq> originalSize (chunks m ! j)"
  shows "(\<exists>err. loadGeoIPFromChunks e dir st = (Inl err, st)) \<and>
    ((\<forall>i < j. chunk_intact e dir (chunks m ! i)) \<longrightarrow>
       loadGeoIPFromChunks e dir st =
         (Inl (ChunkSizeMismatch j (originalSize (chunks m ! j)) (length d)), st)) \<and>
    cachedReader (snd (loadGeoIPFromChunks e dir st)) = None"
proof -
  note fresh = loadGeoIPFromChunks_fresh[OF assms(1-3)]
  obtain err where "load_loop e dir m 0 (allocUnsafe e (totalSize m)) 0 = Inl err"
    using load_loop_reaches_mismatch[OF assms(4-7), of 0] by blast
  then have a: "loadGeoIPFromChunks e dir st = (Inl err, st)"
    by (simp add: fresh)
  have b: "loadGeoIPFromChunks e dir st =
         (Inl (ChunkSizeMismatch j (originalSize (chunks m ! j)) (length d)), st)"
    if "\<forall>i < j. chunk_intact e dir (chunks m ! i)"
    using load_loop_first_mismatch[OF assms(4-7) that, of 0] by (simp add: fresh)
  show ?thesis using a b assms(1) by simp
qed

theorem loadGeoIPFromChunks_size_mismatch_witness:
  "loadGeoIPFromChunks (example_env corrupt_files) ''/app/lib/maxmind-db/chunks'' initial_state =
     (Inl (ChunkSizeMismatch 1 2 4), initial_state) \<and>
   cachedReader (snd (loadGeoIPFromChunks (example_env corrupt_files)
     ''/app/lib/maxmind-db/chunks'' initial_state)) = None"
proof -
  let ?e = "example_env corrupt_files"
  let ?dir = "''/app/lib/maxmind-db/chunks''"
  have h1: "cachedReader initial_state = None" by (simp add: initial_state_def)
  have h2: "fs ?e (path_join [?dir, ''metadata.json'']) = Some (File [123, 125])"
    by (simp add: example_fs_simps corrupt_files_def)
  have h3: "JSON_parse ?e [123, 125] = Inr example_manifest"
    by (simp add: example_fs_simps)
  have h4: "1 < numChunks example_manifest" "1 < length (chunks example_manifest)"
    by (simp_all add: example_manifest_def)
  have h6: "chunk_data ?e ?dir (chunks example_manifest ! 1) = Some [3, 4, 3, 4]"
    by (simp add: example_manifest_def chunk_data_def example_fs_simps corrupt_files_def
        example_gunzip_def)
  have h7: "length [3, 4, 3, 4 :: byte] \<noteq> originalSize (chunks example_manifest ! 1)"
    by (simp add: example_manifest_def)
  have h8: "\<forall>i < 1. chunk_intact ?e ?dir (chunks example_manifest ! i)"
    by (simp add: example_manifest_def chunk_intact_def chunk_data_def example_fs_simps
        corrupt_files_def example_gunzip_def)
  have sz: "originalSize (chunks example_manifest ! 1) = 2"
    by (simp add: example_manifest_def)
  from loadGeoIPFromChunks_size_mismatch[OF h1 h2 h3 h4 h6 h7] h8
  have "loadGeoIPFromChunks ?e ?dir initial_state =
      (Inl (ChunkSizeMismatch 1 (originalSize (chunks example_manifest ! 1))
         (length [3, 4, 3, 4 :: byte])), initial_state)"
    by blast
  then have "loadGeoIPFromChunks ?e ?dir initial_state =
      (Inl (ChunkSizeMismatch 1 2 4), initial_state)"
    by (simp only: sz) simp
  then show ?thesis
    by (simp add: h1)
qed

section \<open>The selector\<close>

text \<open>
  Claim C5. The selector is the first match of the priority list: the chunked directory
  with its manifest, then \<^verbatim>\<open>country.mmdb\<close>, then \<^verbatim>\<open>ipinfo_lite.mmdb\<close>, then
  \<^verbatim>\<open>GeoLite2-City.mmdb\<close>; with none of the four it throws "no database found". In
  particular, with both the chunked manifest and the country file present it selects the
  chunked directory.
\<close>

theorem detectDatabaseType_priority:
  "detectDatabaseType e = select_by_priority e \<and>
   (existsSync e (path_join [db_root e, ''chunks'', ''metadata.json'']) \<and>
    existsSync e (path_join [db_root e, ''country.mmdb'']) \<longrightarrow>
      detectDatabaseType e =
        Inr \<lparr>db_path = path_join [db_root e, ''chunks''], db_type = MaxMind, db_chunked = True\<rparr>) \<and>
   ((\<forall>c \<in> set (candidates e). \<not> existsSync e (fst c)) \<longrightarrow>
      detectDatabaseType e = Inl NoDatabaseFound)"
proof -
  have eq: "detectDatabaseType e = select_by_priority e"
    by (simp add: detectDatabaseType_def select_by_priority_def candidates_def Let_def
        hasChunkedDatabase_def db_root_def)
  have both: "detectDatabaseType e =
        Inr \<lparr>db_path = path_join [db_root e, ''chunks''], db_type = MaxMind, db_chunked = True\<rparr>"
    if "existsSync e (path_join [db_root e, ''chunks'', ''metadata.json''])"
    using that
    by (simp add: detectDatabaseType_def Let_def hasChunkedDatabase_def db_root_def)
  have none: "detectDatabaseType e = Inl NoDatabaseFound"
    if "\<forall>c \<in> set (candidates e). \<not> existsSync e (fst c)"
    using that by (simp add: eq select_by_priority_def candidates_def)
  show ?thesis using eq both none by blast
qed

theorem detectDatabaseType_priority_witness:
  "existsSync (example_env both_files) ''/app/lib/maxmind-db/chunks/metadata.json'' \<and>
   existsSync (example_env both_files) ''/app/lib/maxmind-db/country.mmdb'' \<and>
   detectDatabaseType (example_env both_files) =
     Inr \<lparr>db_path = ''/app/lib/maxmind-db/chunks'', db_type = MaxMind, db_chunked = True\<rparr> \<and>
   detectDatabaseType (example_env []) = Inl NoDatabaseFound"
proof -
  have a: "existsSync (example_env both_files) ''/app/lib/maxmind-db/chunks/metadata.json''"
    "existsSync (example_env both_files) ''/app/lib/maxmind-db/country.mmdb''"
    by (simp_all add: existsSync_def example_fs_simps both_files_def)
  have r: "db_root (example_env fl) = ''/app/lib/maxmind-db''" for fl
    by (simp add: db_root_def example_fs_simps)
  have n: "\<forall>c \<in> set (candidates (example_env [])). \<not> existsSync (example_env []) (fst c)"
    by (simp add: candidates_def existsSync_def example_fs_simps)
  show ?thesis
    using detectDatabaseType_priority[of "example_env both_files", THEN conjunct2]
      detectDatabaseType_priority[of "example_env []", THEN conjunct2] a n
    by (simp add: r)
qed

section \<open>The cache as a Map\<close>

lemma Map_has_iff: "Map_has m k \<longleftrightarrow> k \<in> fst ` set m"
  by (simp add: Map_has_def map_of_eq_None_iff)

lemma Map_set_absent: "k \<notin> fst ` set m \<Longrightarrow> Map_set k v m = m @ [(k, v)]"
  by (induction m) auto

lemma Map_delete_first:
  "distinct (map fst (p # ps)) \<Longrightarrow> Map_delete (fst p) (p # ps) = ps"
proof -
  assume "distinct (map fst (p # ps))"
  then have "\<forall>q \<in> set ps. fst q \<noteq> fst p" by (auto simp: image_iff)
  then have "filter (\<lambda>q. fst q \<noteq> fst p) ps = ps" by (simp add: filter_id_conv)
  then show ?thesis by (simp add: Map_delete_def)
qed

lemma Map_get_Some: "map_of m k = Some v \<Longrightarrow> Map_get m k = v"
  by (simp add: Map_get_def)

lemma MAX_CACHE_SIZE_pos: "0 < MAX_CACHE_SIZE"
  by (simp add: MAX_CACHE_SIZE_def)

lemma cache_store_absent:
  assumes "cache_wf c" and "ip \<notin> fst ` set c"
  shows "cache_store c ip code =
           (if length c = MAX_CACHE_SIZE then tl c else c) @ [(ip, code)]"
proof (cases "length c = MAX_CACHE_SIZE")
  case False
  with assms have "length c < MAX_CACHE_SIZE" by (simp add: cache_wf_def)
  with assms(2) False show ?thesis by (simp add: cache_store_def Map_set_absent)
next
  case True
  with MAX_CACHE_SIZE_pos obtain p ps where c: "c = p # ps" by (cases c) auto
  from assms(1) c have "fst p \<noteq> []" and d: "distinct (map fst (p # ps))"
    by (auto simp: cache_wf_def valid_ip_def)
  moreover from assms(2) c have "ip \<notin> fst ` set ps" by auto
  ultimately show ?thesis
    using True c Map_delete_first[OF d]
    by (simp add: cache_store_def Map_first_key_def Map_set_absent)
qed

lemma cache_wf_store:
  assumes "cache_wf c" and "ip \<notin> fst ` set c" and "valid_ip ip" and "or_null code = code"
  shows "cache_wf (cache_store c ip code)"
proof (cases "length c = MAX_CACHE_SIZE")
  case False
  with assms show ?thesis
    by (auto simp: cache_store_absent cache_wf_def)
next
  case True
  with MAX_CACHE_SIZE_pos obtain p ps where c: "c = p # ps" by (cases c) auto
  with assms True show ?thesis
    by (auto simp: cache_store_absent cache_wf_def)
qed

lemma or_null_extract: "or_null (extractCountryCode t r) = extractCountryCode t r"
  by (simp add: extractCountryCode_def or_null_def)

section \<open>What each function leaves alone\<close>

lemma loadGeoIPFromChunks_frame:
  assumes "loadGeoIPFromChunks e d st = (res, st')"
  shows "st' = st \<or> (\<exists>r b. st' = st\<lparr>cachedReader := Some r, cachedBuffer := Some b\<rparr>)"
  using assms
  by (auto simp: loadGeoIPFromChunks_def Let_def split: option.splits sum.splits if_splits)

lemma loadGeoIPFromChunks_fields:
  assumes "loadGeoIPFromChunks e d st = (res, st')"
  shows "ipCountryCache st' = ipCountryCache st" "provider_queries st' = provider_queries st"
    "preloadPromise st' = preloadPromise st" "isPreloaded st' = isPreloaded st"
    "console st' = console st" "geoIPReader st' = geoIPReader st"
    "databaseType st' = databaseType st"
  using loadGeoIPFromChunks_frame[OF assms] by auto

lemma initGeoIPReader_frame:
  assumes "initGeoIPReader e st = (res, st')"
  shows "ipCountryCache st' = ipCountryCache st" "provider_queries st' = provider_queries st"
    "preloadPromise st' = preloadPromise st"
  using assms
  by (auto simp: initGeoIPReader_def split: option.splits sum.splits if_splits)

lemma initGeoIPReaderAsync_frame:
  assumes "initGeoIPReaderAsync e st = (res, st')"
  shows "ipCountryCache st' = ipCountryCache st" "provider_queries st' = provider_queries st"
    "preloadPromise st' = preloadPromise st"
proof -
  have L: "ipCountryCache s = ipCountryCache st \<and> provider_queries s = provider_queries st \<and>
      preloadPromise s = preloadPromise st"
    if "loadGeoIPFromChunks e d (st\<lparr>isInitializing := True\<rparr>) = (r, s)" for d r s
    using loadGeoIPFromChunks_fields(1,2,3)[OF that] by simp
  show "ipCountryCache st' = ipCountryCache st" "provider_queries st' = provider_queries st"
    "preloadPromise st' = preloadPromise st"
    using assms
    by (auto simp: initGeoIPReaderAsync_def Let_def
        split: option.splits sum.splits if_splits prod.splits dest!: L)
qed

lemma obtain_reader_frame:
  assumes "obtain_reader cv e st = (res, st')"
  shows "ipCountryCache st' = ipCountryCache st" "provider_queries st' = provider_queries st"
    "preloadPromise st' = preloadPromise st"
  using assms initGeoIPReader_frame initGeoIPReaderAsync_frame
  by (auto simp: obtain_reader_def split: convention.splits)

section \<open>The lookups, case by case\<close>

lemma lookup_invalid: "\<not> valid_ip ip \<Longrightarrow> lookup cv e ip st = (Inr JNull, st)"
  by (auto simp: lookup_def valid_ip_def)

lemma lookup_hit:
  "valid_ip ip \<Longrightarrow> Map_has (ipCountryCache st) ip \<Longrightarrow>
   lookup cv e ip st = (Inr (or_null (Map_get (ipCountryCache st) ip)), st)"
  by (simp add: lookup_def valid_ip_def)

lemma lookup_miss:
  "valid_ip ip \<Longrightarrow> \<not> Map_has (ipCountryCache st) ip \<Longrightarrow>
   lookup cv e ip st =
     (case try_lookup cv e ip st of
        (Inr countryCode, st') \<Rightarrow> (Inr countryCode, st')
      | (Inl err, st') \<Rightarrow> (Inr JNull, st'))"
  by (simp add: lookup_def valid_ip_def)

lemma try_lookup_Inl:
  assumes "try_lookup cv e ip st = (Inl err, st')"
  shows "ipCountryCache st' = ipCountryCache st" "preloadPromise st' = preloadPromise st"
  using assms obtain_reader_frame[of cv e st]
  by (auto simp: try_lookup_def query_and_store_def Let_def split: prod.splits sum.splits)

lemma try_lookup_Inr:
  assumes "try_lookup cv e ip st = (Inr code, st')"
  shows "ipCountryCache st' = cache_store (ipCountryCache st) ip code"
    "provider_queries st' = provider_queries st @ [ip]"
    "preloadPromise st' = preloadPromise st"
    "or_null code = code"
  using assms obtain_reader_frame[of cv e st]
  by (auto simp: try_lookup_def query_and_store_def Let_def or_null_extract
      split: prod.splits sum.splits)

lemma lookup_total: "\<exists>v st'. lookup cv e ip st = (Inr v, st')"
  by (auto simp: lookup_def split: prod.splits sum.splits)

lemma cache_wf_hit:
  assumes "cache_wf c" and "map_of c ip = Some v"
  shows "valid_ip ip" "or_null v = v" "Map_has c ip" "Map_get c ip = v"
proof -
  from assms(2) have "(ip, v) \<in> set c" by (rule map_of_SomeD)
  with assms(1) show "valid_ip ip" "or_null v = v" by (auto simp: cache_wf_def)
  from assms(2) show "Map_has c ip" "Map_get c ip = v" by (simp_all add: Map_has_def Map_get_def)
qed

lemma state_ok_lookup:
  assumes "state_ok st"
  shows "state_ok (snd (lookup cv e ip st))"
proof (cases "valid_ip ip \<and> \<not> Map_has (ipCountryCache st) ip")
  case False
  then show ?thesis using assms by (cases "valid_ip ip") (auto simp: lookup_invalid lookup_hit)
next
  case True
  then have absent: "ip \<notin> fst ` set (ipCountryCache st)" by (simp add: Map_has_iff)
  obtain res st' where t: "try_lookup cv e ip st = (res, st')" by (cases "try_lookup cv e ip st")
  show ?thesis
  proof (cases res)
    case (Inl err)
    with t True assms try_lookup_Inl[of cv e ip st err st'] show ?thesis
      by (simp add: lookup_miss state_ok_def)
  next
    case (Inr code)
    with t have r: "try_lookup cv e ip st = (Inr code, st')" by simp
    have "cache_wf (ipCountryCache st')"
      using try_lookup_Inr(1,4)[OF r] assms True absent
      by (simp add: state_ok_def cache_wf_store)
    then show ?thesis
      using r True assms try_lookup_Inr(3)[OF r] by (simp add: lookup_miss state_ok_def)
  qed
qed

lemma state_ok_load: "state_ok st \<Longrightarrow> state_ok (snd (loadGeoIPFromChunks e d st))"
  using loadGeoIPFromChunks_fields(1,3)[of e d st]
  by (cases "loadGeoIPFromChunks e d st") (simp add: state_ok_def)

lemma preloadGeoIPDatabase_cases:
  assumes "preloadGeoIPDatabase e st = (res, st')"
  shows "ipCountryCache st' = ipCountryCache st"
    and "res = Inr () \<or> (isPreloaded st = False \<and> preloadPromise st = Some res)"
    and "preloadPromise st' = preloadPromise st \<or> preloadPromise st' = None \<or>
         preloadPromise st' = Some (Inr ())"
proof -
  have L: "ipCountryCache s = ipCountryCache st"
    if "loadGeoIPFromChunks e d (console_log LogPreloading st) = (r, s)" for d r s
    using loadGeoIPFromChunks_fields(1)[OF that] by (simp add: console_log_def)
  show "ipCountryCache st' = ipCountryCache st"
    using assms
    by (auto simp: preloadGeoIPDatabase_def Let_def console_log_def
        split: option.splits sum.splits if_splits prod.splits dest!: L[unfolded console_log_def])
  show "res = Inr () \<or> (isPreloaded st = False \<and> preloadPromise st = Some res)"
    using assms
    by (auto simp: preloadGeoIPDatabase_def Let_def
        split: option.splits sum.splits if_splits prod.splits)
  show "preloadPromise st' = preloadPromise st \<or> preloadPromise st' = None \<or>
         preloadPromise st' = Some (Inr ())"
    using assms
    by (auto simp: preloadGeoIPDatabase_def Let_def console_log_def
        split: option.splits sum.splits if_splits prod.splits)
qed

lemma state_ok_preload: "state_ok st \<Longrightarrow> state_ok (snd (preloadGeoIPDatabase e st))"
  using preloadGeoIPDatabase_cases(1,3)[of e st]
  by (cases "preloadGeoIPDatabase e st") (auto simp: state_ok_def)

lemma state_ok_serverIPs:
  assumes "state_ok st"
  shows "state_ok (snd (getCountryCodeFromServerIPs e ipv4 ipv6 st))"
proof -
  have a: "state_ok (snd (getCountryCodeFromIP e a s))" if "state_ok s" for a s
    using that by (simp add: getCountryCodeFromIP_def state_ok_lookup)
  have b: "state_ok s'" if "getCountryCodeFromIP e a s = (r, s')" "state_ok s" for a s r s'
    using a[OF that(2), of a] that(1) by simp
  show ?thesis
    using assms
    by (auto simp: getCountryCodeFromServerIPs_def split: option.splits prod.splits sum.splits
        if_splits dest: b)
qed

lemma state_ok_step: "state_ok st \<Longrightarrow> state_ok (step e c st)"
proof (cases c)
  case Call_clearCache
  assume "state_ok st"
  then show ?thesis using Call_clearCache
    by (simp add: clearCache_def state_ok_def cache_wf_def)
next
  case Call_clearChunkedCache
  assume "state_ok st"
  then show ?thesis using Call_clearChunkedCache
    by (simp add: clearChunkedCache_def state_ok_def)
qed (simp_all add: state_ok_load state_ok_preload state_ok_lookup state_ok_serverIPs
      getCountryCodeFromIP_def getCountryCodeFromIPAsync_def)

lemma state_ok_run: "state_ok st \<Longrightarrow> state_ok (run calls st)"
  by (induction calls arbitrary: st) (simp_all add: state_ok_step)

lemma state_ok_initial: "state_ok initial_state"
  by (simp add: state_ok_def initial_state_def cache_wf_def)

lemma state_ok_reachable: "state_ok (run calls initial_state)"
  by (simp add: state_ok_run state_ok_initial)

lemma run_append: "run (xs @ ys) st = run ys (run xs st)"
  by (induction xs arbitrary: st) simp_all

lemma step_lookup_call: "step e (lookup_call cv ip) st = snd (lookup cv e ip st)"
  by (cases cv) (simp_all add: lookup_call_def getCountryCodeFromIP_def getCountryCodeFromIPAsync_def)

lemma obtain_reader_ready: "geoIPReader st = Some r \<Longrightarrow> obtain_reader cv e st = (Inr r, st)"
  by (cases cv) (simp_all add: obtain_reader_def initGeoIPReader_def initGeoIPReaderAsync_def)

lemma map_of_snoc_absent: "k \<notin> fst ` set xs \<Longrightarrow> map_of (xs @ [(k, v)]) k = Some v"
  by (induction xs) auto

section \<open>Cached results\<close>

text \<open>
  Claim C6. In every state the module can reach, a lookup of a key the cache holds returns
  the cached value, a cached null included, and leaves the state as it is: the Provider is
  not queried. Consequently, when a first lookup of an address misses the cache and
  completes without error, it returns the code it stores, a second lookup of the same
  address (in either calling convention, in any environment) returns the same code from
  the cache, and across the two the Provider has been queried exactly once.
\<close>

theorem lookup_cached:
  "(map_of (ipCountryCache (run calls initial_state)) ip = Some v \<longrightarrow>
      lookup cv e ip (run calls initial_state) = (Inr v, run calls initial_state)) \<and>
   (valid_ip ip \<and> \<not> Map_has (ipCountryCache (run calls initial_state)) ip \<and>
    try_lookup cv e ip (run calls initial_state) = (Inr code, st1) \<longrightarrow>
      lookup cv e ip (run calls initial_state) = (Inr code, st1) \<and>
      lookup cv' e' ip st1 = (Inr code, st1) \<and>
      provider_queries (snd (lookup cv' e' ip (snd (lookup cv e ip (run calls initial_state)))))
        = provider_queries (run calls initial_state) @ [ip])"
proof -
  let ?st = "run calls initial_state"
  have ok: "cache_wf (ipCountryCache ?st)"
    using state_ok_reachable[of calls] by (simp add: state_ok_def)
  have hit: "lookup cv e ip ?st = (Inr v, ?st)" if "map_of (ipCountryCache ?st) ip = Some v"
    using cache_wf_hit[OF ok that] by (simp add: lookup_hit)
  have twice: "lookup cv e ip ?st = (Inr code, st1) \<and> lookup cv' e' ip st1 = (Inr code, st1) \<and>
      provider_queries (snd (lookup cv' e' ip (snd (lookup cv e ip ?st))))
        = provider_queries ?st @ [ip]"
    if v: "valid_ip ip" and miss: "\<not> Map_has (ipCountryCache ?st) ip"
      and t: "try_lookup cv e ip ?st = (Inr code, st1)"
  proof -
    have first: "lookup cv e ip ?st = (Inr code, st1)"
      using v miss t by (simp add: lookup_miss)
    from miss have absent: "ip \<notin> fst ` set (ipCountryCache ?st)" by (simp add: Map_has_iff)
    have c1: "ipCountryCache st1 = cache_store (ipCountryCache ?st) ip code"
      by (rule try_lookup_Inr(1)[OF t])
    define xs where "xs = (if length (ipCountryCache ?st) = MAX_CACHE_SIZE
      then tl (ipCountryCache ?st) else ipCountryCache ?st)"
    have "ip \<notin> fst ` set (tl (ipCountryCache ?st))"
      using absent by (cases "ipCountryCache ?st") auto
    with absent have "ip \<notin> fst ` set xs" by (simp add: xs_def)
    moreover have "ipCountryCache st1 = xs @ [(ip, code)]"
      using c1 by (simp add: cache_store_absent[OF ok absent] xs_def)
    ultimately have stored: "map_of (ipCountryCache st1) ip = Some code"
      using map_of_snoc_absent[of ip xs code] by simp
    then have "Map_has (ipCountryCache st1) ip" "Map_get (ipCountryCache st1) ip = code"
      by (simp_all add: Map_has_def Map_get_def)
    then have second: "lookup cv' e' ip st1 = (Inr code, st1)"
      using v try_lookup_Inr(4)[OF t] by (simp add: lookup_hit)
    show ?thesis
      using first second try_lookup_Inr(2)[OF t] by simp
  qed
  show ?thesis using hit twice by blast
qed

lemma city_detect:
  "detectDatabaseType (example_env city_files) =
     Inr \<lparr>db_path = ''/app/lib/maxmind-db/GeoLite2-City.mmdb'', db_type = MaxMind,
          db_chunked = False\<rparr>"
  by (simp add: detectDatabaseType_def hasChunkedDatabase_def existsSync_def example_fs_simps
      city_files_def Let_def)

lemma initial_fields:
  "cachedReader initial_state = None" "geoIPReader initial_state = None"
  "ipCountryCache initial_state = []" "provider_queries initial_state = []"
  "databaseType initial_state = MaxMind" "isPreloaded initial_state = False"
  "preloadPromise initial_state = None" "console initial_state = []"
  "isInitializing initial_state = False"
  by (simp_all add: initial_state_def)

lemma city_read:
  "readFileSync (example_env city_files) ''/app/lib/maxmind-db/GeoLite2-City.mmdb'' = Inr [77, 77]"
  by (simp add: readFileSync_def example_fs_simps city_files_def)

lemma city_init:
  "initGeoIPReader (example_env city_files) initial_state =
     (Inr (Reader [77, 77]), initial_state\<lparr>geoIPReader := Some (Reader [77, 77]),
        databaseType := MaxMind\<rparr>)"
  by (simp add: initGeoIPReader_def city_detect city_read new_Reader_def example_fs_simps
      initial_fields)

lemma city_lookup_unknown:
  "try_lookup Blocking (example_env city_files) ''203.0.113.1'' initial_state =
     (Inr JNull,
      initial_state\<lparr>geoIPReader := Some (Reader [77, 77]), databaseType := MaxMind,
        provider_queries := [''203.0.113.1''],
        ipCountryCache := [(''203.0.113.1'', JNull)]\<rparr>)"
  by (simp add: try_lookup_def obtain_reader_def city_init query_and_store_def reader_get_def
      example_fs_simps example_get_def extractCountryCode_def cache_store_def
      MAX_CACHE_SIZE_def Let_def initial_fields Map_first_key_def)

lemma city_run_unknown:
  "run [(example_env city_files, Call_getCountryCodeFromIP ''203.0.113.1'')] initial_state =
     initial_state\<lparr>geoIPReader := Some (Reader [77, 77]), databaseType := MaxMind,
        provider_queries := [''203.0.113.1''],
        ipCountryCache := [(''203.0.113.1'', JNull)]\<rparr>"
  by (simp add: getCountryCodeFromIP_def lookup_def Map_has_def initial_fields
      city_lookup_unknown)

theorem lookup_cached_witness:
  "lookup NonBlocking (example_env [])  ''203.0.113.1''
     (run [(example_env city_files, Call_getCountryCodeFromIP ''203.0.113.1'')] initial_state) =
     (Inr JNull,
      run [(example_env city_files, Call_getCountryCodeFromIP ''203.0.113.1'')] initial_state) \<and>
   fst (lookup Blocking (example_env city_files) ''203.0.113.1'' initial_state) = Inr JNull \<and>
   fst (lookup NonBlocking (example_env [])  ''203.0.113.1''
     (snd (lookup Blocking (example_env city_files) ''203.0.113.1'' initial_state))) = Inr JNull \<and>
   provider_queries (snd (lookup NonBlocking (example_env []) ''203.0.113.1''
     (snd (lookup Blocking (example_env city_files) ''203.0.113.1'' initial_state))))
     = [''203.0.113.1'']"
proof -
  let ?calls = "[(example_env city_files, Call_getCountryCodeFromIP ''203.0.113.1'')]"
  have v: "valid_ip ''203.0.113.1''" by (simp add: valid_ip_def)
  have m: "\<not> Map_has (ipCountryCache (run [] initial_state)) ''203.0.113.1''"
    by (simp add: Map_has_def initial_fields)
  have q: "provider_queries initial_state = []" by (simp add: initial_fields)
  have held: "map_of (ipCountryCache (run ?calls initial_state)) ''203.0.113.1'' = Some JNull"
    by (simp only: city_run_unknown) simp
  have one: "lookup NonBlocking (example_env []) ''203.0.113.1'' (run ?calls initial_state) =
      (Inr JNull, run ?calls initial_state)"
    using lookup_cached[where calls = ?calls and ip = "''203.0.113.1''" and v = JNull
        and cv = NonBlocking and e = "example_env []", THEN conjunct1] held
    by (rule mp)
  have two: "fst (lookup Blocking (example_env city_files) ''203.0.113.1'' initial_state) = Inr JNull \<and>
   fst (lookup NonBlocking (example_env [])  ''203.0.113.1''
     (snd (lookup Blocking (example_env city_files) ''203.0.113.1'' initial_state))) = Inr JNull \<and>
   provider_queries (snd (lookup NonBlocking (example_env []) ''203.0.113.1''
     (snd (lookup Blocking (example_env city_files) ''203.0.113.1'' initial_state))))
     = [''203.0.113.1'']"
    using lookup_cached[of "[]" "''203.0.113.1''" _ Blocking "example_env city_files" JNull _
        NonBlocking "example_env []", THEN conjunct2] v m city_lookup_unknown
    by (simp add: q)
  from one two show ?thesis by blast
qed

section \<open>The blocking form and a chunked database\<close>

text \<open>
  Claim C7. When the selector picks the chunked database and the resolver holds no
  reader, the blocking initialisation throws the "not preloaded" error at once and
  leaves the module state as it is: it reads no chunk and builds nothing. The blocking
  lookup of an address that is not cached then returns null, the state unchanged.
\<close>

theorem blocking_not_preloaded:
  assumes "geoIPReader st = None"
    and "detectDatabaseType e = Inr d"
    and "db_chunked d"
  shows "initGeoIPReader e st = (Inl NotPreloaded, st) \<and>
    (valid_ip ip \<and> \<not> Map_has (ipCountryCache st) ip \<longrightarrow>
       getCountryCodeFromIP e ip st = (Inr JNull, st))"
proof -
  have a: "initGeoIPReader e st = (Inl NotPreloaded, st)"
    using assms by (simp add: initGeoIPReader_def)
  then have "try_lookup Blocking e ip st = (Inl NotPreloaded, st)"
    by (simp add: try_lookup_def obtain_reader_def)
  then have "getCountryCodeFromIP e ip st = (Inr JNull, st)"
    if "valid_ip ip" "\<not> Map_has (ipCountryCache st) ip"
    using that by (simp add: getCountryCodeFromIP_def lookup_miss)
  with a show ?thesis by blast
qed

lemma chunked_detect:
  "detectDatabaseType (example_env chunked_files) =
     Inr \<lparr>db_path = ''/app/lib/maxmind-db/chunks'', db_type = MaxMind, db_chunked = True\<rparr>"
  by (simp add: detectDatabaseType_def hasChunkedDatabase_def existsSync_def example_fs_simps
      chunked_files_def Let_def)

theorem blocking_not_preloaded_witness:
  "initGeoIPReader (example_env chunked_files) initial_state = (Inl NotPreloaded, initial_state) \<and>
   getCountryCodeFromIP (example_env chunked_files) ''8.8.8.8'' initial_state =
     (Inr JNull, initial_state)"
proof -
  have v: "valid_ip ''8.8.8.8''" by (simp add: valid_ip_def)
  have m: "\<not> Map_has (ipCountryCache initial_state) ''8.8.8.8''"
    by (simp add: Map_has_def initial_fields)
  show ?thesis
    using blocking_not_preloaded[OF initial_fields(2) chunked_detect, of "''8.8.8.8''"] v m
    by simp
qed

section \<open>Errors of a lookup\<close>

text \<open>
  Claim C8. Neither \<^verbatim>\<open>getCountryCodeFromIP\<close> nor \<^verbatim>\<open>getCountryCodeFromIPAsync\<close> ever
  throws: for every environment, address and state each returns a value. When a lookup
  that reaches the \<^verbatim>\<open>try\<close> block fails to obtain the reader (an initialisation error),
  or obtains it and the Provider's \<^verbatim>\<open>get\<close> throws, the lookup returns null.
\<close>

theorem lookup_absorbs_errors:
  "(\<exists>v st'. getCountryCodeFromIP e ip st = (Inr v, st')) \<and>
   (\<exists>v st'. getCountryCodeFromIPAsync e ip st = (Inr v, st')) \<and>
   (valid_ip ip \<and> \<not> Map_has (ipCountryCache st) ip \<and>
    obtain_reader cv e st = (Inl err, st1) \<longrightarrow> lookup cv e ip st = (Inr JNull, st1)) \<and>
   (valid_ip ip \<and> \<not> Map_has (ipCountryCache st) ip \<and>
    obtain_reader cv e st = (Inr r, st1) \<and> reader_get e r ip = Inl err \<longrightarrow>
      lookup cv e ip st = (Inr JNull, st1\<lparr>provider_queries := provider_queries st1 @ [ip]\<rparr>))"
proof -
  have a: "\<exists>v st'. getCountryCodeFromIP e ip st = (Inr v, st')"
    unfolding getCountryCodeFromIP_def by (rule lookup_total)
  have b: "\<exists>v st'. getCountryCodeFromIPAsync e ip st = (Inr v, st')"
    unfolding getCountryCodeFromIPAsync_def by (rule lookup_total)
  have c: "lookup cv e ip st = (Inr JNull, st1)"
    if "valid_ip ip" "\<not> Map_has (ipCountryCache st) ip" "obtain_reader cv e st = (Inl err, st1)"
    using that by (simp add: lookup_miss try_lookup_def)
  have d: "lookup cv e ip st = (Inr JNull, st1\<lparr>provider_queries := provider_queries st1 @ [ip]\<rparr>)"
    if "valid_ip ip" "\<not> Map_has (ipCountryCache st) ip" "obtain_reader cv e st = (Inr r, st1)"
      "reader_get e r ip = Inl err"
    using that by (simp add: lookup_miss try_lookup_def query_and_store_def)
  show ?thesis using a b c d by blast
qed

lemma warm_fields:
  "geoIPReader warm_state = Some (Reader [77, 77])" "ipCountryCache warm_state = []"
  "provider_queries warm_state = []" "databaseType warm_state = MaxMind"
  by (simp_all add: warm_state_def initial_fields)

lemma empty_detect: "detectDatabaseType (example_env []) = Inl NoDatabaseFound"
  by (simp add: detectDatabaseType_def hasChunkedDatabase_def existsSync_def example_fs_simps
      Let_def)

theorem lookup_absorbs_errors_witness:
  "lookup Blocking (example_env []) ''8.8.8.8'' initial_state = (Inr JNull, initial_state) \<and>
   lookup NonBlocking (example_env city_files) ''0.0.0.0'' warm_state =
     (Inr JNull, warm_state\<lparr>provider_queries := [''0.0.0.0'']\<rparr>)"
proof -
  have v: "valid_ip ''8.8.8.8''" "valid_ip ''0.0.0.0''" by (simp_all add: valid_ip_def)
  have m: "\<not> Map_has (ipCountryCache initial_state) ''8.8.8.8''"
    "\<not> Map_has (ipCountryCache warm_state) ''0.0.0.0''"
    by (simp_all add: Map_has_def initial_fields warm_fields)
  have i: "obtain_reader Blocking (example_env []) initial_state = (Inl NoDatabaseFound, initial_state)"
    by (simp add: obtain_reader_def initGeoIPReader_def empty_detect initial_fields)
  have g: "obtain_reader NonBlocking (example_env city_files) warm_state =
      (Inr (Reader [77, 77]), warm_state)"
    by (simp add: obtain_reader_ready warm_fields)
  have q: "reader_get (example_env city_files) (Reader [77, 77]) ''0.0.0.0'' =
      Inl (LookupError ''0.0.0.0'')"
    by (simp add: reader_get_def example_fs_simps example_get_def)
  show ?thesis
    using lookup_absorbs_errors[of "example_env []" "''8.8.8.8''" initial_state Blocking
        NoDatabaseFound initial_state]
      lookup_absorbs_errors[of "example_env city_files" "''0.0.0.0''" warm_state NonBlocking
        "LookupError ''0.0.0.0''" warm_state "Reader [77, 77]"]
      v m i g q
    by (simp add: warm_fields)
qed

section \<open>Preloading\<close>

text \<open>
  Claim C9. In every state the module can reach, \<^verbatim>\<open>preloadGeoIPDatabase\<close> returns without
  an error. When the load of a chunked database fails (a missing manifest or chunk file,
  a chunk of the wrong size, an invalid database) it logs the failure after the line that
  announced the preload, leaves \<open>isPreloaded\<close> false, and returns successfully.
\<close>

theorem preload_never_fails:
  "fst (preloadGeoIPDatabase e (run calls initial_state)) = Inr () \<and>
   (\<not> isPreloaded st \<and> preloadPromise st = None \<and>
    hasChunkedDatabase e (path_join [cwd e, ''lib'', ''maxmind-db'', ''chunks'']) \<and>
    loadGeoIPFromChunks e (path_join [cwd e, ''lib'', ''maxmind-db'', ''chunks''])
      (console_log LogPreloading st) = (Inl err, st') \<longrightarrow>
      fst (preloadGeoIPDatabase e st) = Inr () \<and>
      console (snd (preloadGeoIPDatabase e st)) =
        console st @ [LogPreloading, LogPreloadFailed err] \<and>
      \<not> isPreloaded (snd (preloadGeoIPDatabase e st)))"
proof -
  let ?st = "run calls initial_state"
  have ok: "preloadPromise ?st = None \<or> preloadPromise ?st = Some (Inr ())"
    using state_ok_reachable[of calls] by (simp add: state_ok_def)
  obtain res s where p: "preloadGeoIPDatabase e ?st = (res, s)"
    by (cases "preloadGeoIPDatabase e ?st")
  have a: "fst (preloadGeoIPDatabase e ?st) = Inr ()"
    using preloadGeoIPDatabase_cases(2)[OF p] ok p by auto
  have b: "fst (preloadGeoIPDatabase e st) = Inr () \<and>
      console (snd (preloadGeoIPDatabase e st)) =
        console st @ [LogPreloading, LogPreloadFailed err] \<and>
      \<not> isPreloaded (snd (preloadGeoIPDatabase e st))"
    if "\<not> isPreloaded st" "preloadPromise st = None"
      "hasChunkedDatabase e (path_join [cwd e, ''lib'', ''maxmind-db'', ''chunks''])"
      "loadGeoIPFromChunks e (path_join [cwd e, ''lib'', ''maxmind-db'', ''chunks''])
        (console_log LogPreloading st) = (Inl err, st')"
  proof -
    have f: "console st' = console st @ [LogPreloading]" "isPreloaded st' = isPreloaded st"
      using loadGeoIPFromChunks_fields(4,5)[OF that(4)] by (simp_all add: console_log_def)
    have "preloadGeoIPDatabase e st =
        (Inr (), (console_log (LogPreloadFailed err) st')\<lparr>preloadPromise := None\<rparr>)"
      using that by (simp add: preloadGeoIPDatabase_def Let_def)
    then show ?thesis using f that(1) by (simp add: console_log_def)
  qed
  show ?thesis using a b by blast
qed

lemma corrupt_load:
  assumes "cachedReader st = None"
  shows "loadGeoIPFromChunks (example_env corrupt_files) ''/app/lib/maxmind-db/chunks'' st =
     (Inl (ChunkSizeMismatch 1 2 4), st)"
proof -
  let ?e = "example_env corrupt_files"
  let ?dir = "''/app/lib/maxmind-db/chunks''"
  have h2: "fs ?e (path_join [?dir, ''metadata.json'']) = Some (File [123, 125])"
    by (simp add: example_fs_simps corrupt_files_def)
  have h3: "JSON_parse ?e [123, 125] = Inr example_manifest"
    by (simp add: example_fs_simps)
  have h4: "1 < numChunks example_manifest" "1 < length (chunks example_manifest)"
    by (simp_all add: example_manifest_def)
  have h6: "chunk_data ?e ?dir (chunks example_manifest ! 1) = Some [3, 4, 3, 4]"
    by (simp add: example_manifest_def chunk_data_def example_fs_simps corrupt_files_def
        example_gunzip_def)
  have h7: "length [3, 4, 3, 4 :: byte] \<noteq> originalSize (chunks example_manifest ! 1)"
    by (simp add: example_manifest_def)
  have h8: "\<forall>i < 1. chunk_intact ?e ?dir (chunks example_manifest ! i)"
    by (simp add: example_manifest_def chunk_intact_def chunk_data_def example_fs_simps
        corrupt_files_def example_gunzip_def)
  have sz: "originalSize (chunks example_manifest ! 1) = 2"
    by (simp add: example_manifest_def)
  have "load_loop ?e ?dir example_manifest 0 (allocUnsafe ?e (totalSize example_manifest)) 0 =
      Inl (ChunkSizeMismatch 1 (originalSize (chunks example_manifest ! 1))
             (length [3, 4, 3, 4 :: byte]))"
    by (rule load_loop_first_mismatch[OF h4 h6 h7 h8]) simp
  then have "load_loop ?e ?dir example_manifest 0 (allocUnsafe ?e (totalSize example_manifest)) 0 =
      Inl (ChunkSizeMismatch 1 2 4)"
    by (simp only: sz) simp
  then show ?thesis
    by (simp add: loadGeoIPFromChunks_fresh[OF assms h2 h3])
qed

theorem preload_never_fails_witness:
  "fst (preloadGeoIPDatabase (example_env corrupt_files) initial_state) = Inr () \<and>
   console (snd (preloadGeoIPDatabase (example_env corrupt_files) initial_state)) =
     [LogPreloading, LogPreloadFailed (ChunkSizeMismatch 1 2 4)] \<and>
   \<not> isPreloaded (snd (preloadGeoIPDatabase (example_env corrupt_files) initial_state))"
proof -
  let ?e = "example_env corrupt_files"
  have dir: "path_join [cwd ?e, ''lib'', ''maxmind-db'', ''chunks''] = ''/app/lib/maxmind-db/chunks''"
    by (simp add: example_fs_simps)
  have h: "hasChunkedDatabase ?e ''/app/lib/maxmind-db/chunks''"
    by (simp add: hasChunkedDatabase_def existsSync_def example_fs_simps corrupt_files_def)
  have l: "loadGeoIPFromChunks ?e ''/app/lib/maxmind-db/chunks''
      (console_log LogPreloading initial_state) =
      (Inl (ChunkSizeMismatch 1 2 4), console_log LogPreloading initial_state)"
    by (rule corrupt_load) (simp add: console_log_def initial_fields)
  show ?thesis
    using preload_never_fails[of ?e "[]" initial_state "ChunkSizeMismatch 1 2 4"
        "console_log LogPreloading initial_state", THEN conjunct2] h l
    by (simp add: example_fs_simps initial_fields)
qed

section \<open>Errors are not cached\<close>

lemma lookup_provider_error:
  assumes "valid_ip ip" "\<not> Map_has (ipCountryCache st) ip"
    and "geoIPReader st = Some r" and "reader_get e r ip = Inl err"
  shows "lookup cv e ip st = (Inr JNull, st\<lparr>provider_queries := provider_queries st @ [ip]\<rparr>)"
  using assms
  by (simp add: lookup_miss try_lookup_def obtain_reader_ready query_and_store_def)

lemma run_provider_errors:
  assumes "valid_ip ip" and "reader_get e r ip = Inl err"
  shows "\<not> Map_has (ipCountryCache st) ip \<Longrightarrow> geoIPReader st = Some r \<Longrightarrow>
     provider_queries (run (map (\<lambda>cv. (e, lookup_call cv ip)) cvs) st) =
       provider_queries st @ replicate (length cvs) ip \<and>
     ipCountryCache (run (map (\<lambda>cv. (e, lookup_call cv ip)) cvs) st) = ipCountryCache st"
proof (induction cvs arbitrary: st)
  case Nil
  then show ?case by simp
next
  case (Cons cv cvs)
  let ?st1 = "st\<lparr>provider_queries := provider_queries st @ [ip]\<rparr>"
  have s: "step e (lookup_call cv ip) st = ?st1"
    using lookup_provider_error[OF assms(1) Cons.prems(1,2) assms(2)]
    by (simp add: step_lookup_call)
  have "provider_queries (run (map (\<lambda>cv. (e, lookup_call cv ip)) cvs) ?st1) =
       provider_queries ?st1 @ replicate (length cvs) ip \<and>
     ipCountryCache (run (map (\<lambda>cv. (e, lookup_call cv ip)) cvs) ?st1) = ipCountryCache ?st1"
    using Cons.prems by (intro Cons.IH) simp_all
  then show ?case
    by (simp add: s replicate_append_same)
qed

text \<open>
  Claim C10. When a lookup that reaches the \<^verbatim>\<open>try\<close> block fails, whether obtaining the
  reader or querying the Provider, it returns null and the cache is what it was: nothing
  is stored for the address. So, unlike a cached "not found", an address on which the
  Provider throws is passed to the Provider again by every later lookup: after any number
  of such lookups, in either calling convention, the Provider has been queried that many
  times more and the cache is still unchanged.
\<close>

theorem lookup_error_not_cached:
  "(valid_ip ip \<and> \<not> Map_has (ipCountryCache st) ip \<and>
    try_lookup cv e ip st = (Inl err, st') \<longrightarrow>
      lookup cv e ip st = (Inr JNull, st') \<and> ipCountryCache st' = ipCountryCache st \<and>
      \<not> Map_has (ipCountryCache st') ip) \<and>
   (valid_ip ip \<and> \<not> Map_has (ipCountryCache st) ip \<and>
    geoIPReader st = Some r \<and> reader_get e r ip = Inl err \<longrightarrow>
      provider_queries (run (map (\<lambda>cv. (e, lookup_call cv ip)) cvs) st) =
        provider_queries st @ replicate (length cvs) ip \<and>
      ipCountryCache (run (map (\<lambda>cv. (e, lookup_call cv ip)) cvs) st) = ipCountryCache st)"
proof -
  have a: "lookup cv e ip st = (Inr JNull, st') \<and> ipCountryCache st' = ipCountryCache st \<and>
      \<not> Map_has (ipCountryCache st') ip"
    if "valid_ip ip" "\<not> Map_has (ipCountryCache st) ip" "try_lookup cv e ip st = (Inl err, st')"
    using that try_lookup_Inl(1)[OF that(3)] by (simp add: lookup_miss)
  have b: "provider_queries (run (map (\<lambda>cv. (e, lookup_call cv ip)) cvs) st) =
        provider_queries st @ replicate (length cvs) ip \<and>
      ipCountryCache (run (map (\<lambda>cv. (e, lookup_call cv ip)) cvs) st) = ipCountryCache st"
    if "valid_ip ip" "\<not> Map_has (ipCountryCache st) ip" "geoIPReader st = Some r"
      "reader_get e r ip = Inl err"
    using run_provider_errors[OF that(1,4,2,3)] .
  show ?thesis using a b by blast
qed

theorem lookup_error_not_cached_witness:
  "lookup Blocking (example_env []) ''8.8.8.8'' initial_state = (Inr JNull, initial_state) \<and>
   provider_queries
     (run [(example_env city_files, Call_getCountryCodeFromIP ''0.0.0.0''),
           (example_env city_files, Call_getCountryCodeFromIPAsync ''0.0.0.0''),
           (example_env city_files, Call_getCountryCodeFromIP ''0.0.0.0'')] warm_state)
     = [''0.0.0.0'', ''0.0.0.0'', ''0.0.0.0''] \<and>
   ipCountryCache
     (run [(example_env city_files, Call_getCountryCodeFromIP ''0.0.0.0''),
           (example_env city_files, Call_getCountryCodeFromIPAsync ''0.0.0.0''),
           (example_env city_files, Call_getCountryCodeFromIP ''0.0.0.0'')] warm_state) = []"
proof -
  have v: "valid_ip ''8.8.8.8''" "valid_ip ''0.0.0.0''" by (simp_all add: valid_ip_def)
  have m: "\<not> Map_has (ipCountryCache initial_state) ''8.8.8.8''"
    "\<not> Map_has (ipCountryCache warm_state) ''0.0.0.0''"
    by (simp_all add: Map_has_def initial_fields warm_fields)
  have t: "try_lookup Blocking (example_env []) ''8.8.8.8'' initial_state =
      (Inl NoDatabaseFound, initial_state)"
    by (simp add: try_lookup_def obtain_reader_def initGeoIPReader_def empty_detect initial_fields)
  have q: "reader_get (example_env city_files) (Reader [77, 77]) ''0.0.0.0'' =
      Inl (LookupError ''0.0.0.0'')"
    by (simp add: reader_get_def example_fs_simps example_get_def)
  show ?thesis
    using lookup_error_not_cached[of "''8.8.8.8''" initial_state Blocking "example_env []"
        NoDatabaseFound initial_state, THEN conjunct1]
      lookup_error_not_cached[of "''0.0.0.0''" warm_state _ "example_env city_files"
        "LookupError ''0.0.0.0''" _ "Reader [77, 77]" "[Blocking, NonBlocking, Blocking]",
        THEN conjunct2]
      v m t q
    by (simp add: warm_fields lookup_call_def)
qed

section \<open>The cache is bounded and evicts in insertion order\<close>

lemma fifo_snoc:
  assumes "0 < M"
  shows "(if length (drop (length xs - M) xs) = M then tl (drop (length xs - M) xs)
          else drop (length xs - M) xs) @ [x]
         = drop (Suc (length xs) - M) (xs @ [x])"
proof (cases "M \<le> length xs")
  case True
  then have "Suc (length xs) - M = Suc (length xs - M)" by simp
  moreover have "Suc (length xs - M) \<le> length xs" using True assms by simp
  moreover have "length (drop (length xs - M) xs) = M" using True by simp
  ultimately show ?thesis by (simp add: tl_drop drop_Suc)
next
  case False
  then show ?thesis by simp
qed

lemma run_distinct_lookups:
  assumes r: "geoIPReader st0 = Some r" and empty: "ipCountryCache st0 = []"
  shows "distinct ks \<Longrightarrow> \<forall>k \<in> set ks. valid_ip k \<and> reader_get e r k = Inr (res k) \<Longrightarrow>
     ipCountryCache (run (map (\<lambda>k. (e, lookup_call cv k)) ks) st0) =
       drop (length ks - MAX_CACHE_SIZE)
         (map (\<lambda>k. (k, extractCountryCode (databaseType st0) (res k))) ks) \<and>
     geoIPReader (run (map (\<lambda>k. (e, lookup_call cv k)) ks) st0) = Some r \<and>
     databaseType (run (map (\<lambda>k. (e, lookup_call cv k)) ks) st0) = databaseType st0"
proof (induction ks rule: rev_induct)
  case Nil
  then show ?case using r empty by simp
next
  case (snoc k ks)
  let ?entry = "\<lambda>k. (k, extractCountryCode (databaseType st0) (res k))"
  let ?st = "run (map (\<lambda>k. (e, lookup_call cv k)) ks) st0"
  let ?c = "drop (length ks - MAX_CACHE_SIZE) (map ?entry ks)"
  from snoc.prems have d: "distinct ks" and knew: "k \<notin> set ks"
    and all: "\<forall>k \<in> set ks. valid_ip k \<and> reader_get e r k = Inr (res k)"
    and k: "valid_ip k" "reader_get e r k = Inr (res k)"
    by simp_all
  from snoc.IH[OF d all] have c: "ipCountryCache ?st = ?c"
    and rd: "geoIPReader ?st = Some r" and dt: "databaseType ?st = databaseType st0"
    by simp_all
  have keys: "map fst ?c = drop (length ks - MAX_CACHE_SIZE) ks"
    by (simp add: drop_map comp_def)
  have sub: "set ?c \<subseteq> set (map ?entry ks)" by (rule set_drop_subset)
  have wf: "cache_wf ?c"
    unfolding cache_wf_def
  proof (intro conjI ballI)
    show "distinct (map fst ?c)" using d by (simp only: keys distinct_drop)
    show "length ?c \<le> MAX_CACHE_SIZE" by simp
    fix p assume "p \<in> set ?c"
    with sub obtain k' where "k' \<in> set ks" "p = ?entry k'" by auto
    with all show "valid_ip (fst p)" "or_null (snd p) = snd p"
      by (simp_all add: or_null_extract)
  qed
  have "fst ` set ?c \<subseteq> set ks"
    using set_drop_subset[of "length ks - MAX_CACHE_SIZE" ks] keys
    by (metis set_map)
  with knew have absent: "k \<notin> fst ` set ?c" by blast
  then have miss: "\<not> Map_has (ipCountryCache ?st) k" by (simp add: c Map_has_iff)
  have look: "snd (lookup cv e k ?st) =
      ?st\<lparr>provider_queries := provider_queries ?st @ [k],
          ipCountryCache := cache_store ?c k (extractCountryCode (databaseType st0) (res k))\<rparr>"
    using k miss rd dt c
    by (simp add: lookup_miss try_lookup_def obtain_reader_ready query_and_store_def Let_def)
  have "cache_store ?c k (extractCountryCode (databaseType st0) (res k)) =
      (if length ?c = MAX_CACHE_SIZE then tl ?c else ?c) @ [?entry k]"
    by (rule cache_store_absent[OF wf absent])
  also have "\<dots> = drop (Suc (length ks) - MAX_CACHE_SIZE) (map ?entry ks @ [?entry k])"
    using fifo_snoc[OF MAX_CACHE_SIZE_pos, of "map ?entry ks" "?entry k"]
    by (simp only: length_map)
  finally have store: "cache_store ?c k (extractCountryCode (databaseType st0) (res k)) =
      drop (Suc (length ks) - MAX_CACHE_SIZE) (map ?entry (ks @ [k]))"
    by simp
  show ?case
    using look store rd dt
    by (simp add: run_append step_lookup_call)
qed

text \<open>
  Claim C3. After every sequence of calls the cache holds at most 10,000 entries. A lookup
  of a key the cache holds leaves the state, and with it the order of the entries, as it
  is. A lookup that inserts (a miss that completes without error) appends the new entry
  at the end, after removing the first entry in insertion order, and that entry only,
  when the cache is full. After capacity + 1 lookups of distinct addresses that the
  Provider answers, starting from an empty cache, the cache holds the entries of all of
  them but the first, in order: the first is no longer held and every other one is.
\<close>

theorem cache_bounded_fifo:
  "length (ipCountryCache (run calls initial_state)) \<le> MAX_CACHE_SIZE \<and>
   (Map_has (ipCountryCache st) ip \<longrightarrow> snd (lookup cv e ip st) = st) \<and>
   (valid_ip ip \<and> \<not> Map_has (ipCountryCache (run calls initial_state)) ip \<and>
    try_lookup cv e ip (run calls initial_state) = (Inr code, st') \<longrightarrow>
      ipCountryCache (snd (lookup cv e ip (run calls initial_state))) =
        (if length (ipCountryCache (run calls initial_state)) = MAX_CACHE_SIZE
         then tl (ipCountryCache (run calls initial_state))
         else ipCountryCache (run calls initial_state)) @ [(ip, code)]) \<and>
   (geoIPReader st0 = Some r \<and> ipCountryCache st0 = [] \<and> distinct ks \<and>
    length ks = Suc MAX_CACHE_SIZE \<and>
    (\<forall>k \<in> set ks. valid_ip k \<and> reader_get e r k = Inr (res k)) \<longrightarrow>
      ipCountryCache (run (map (\<lambda>k. (e, lookup_call cv k)) ks) st0) =
        tl (map (\<lambda>k. (k, extractCountryCode (databaseType st0) (res k))) ks) \<and>
      \<not> Map_has (ipCountryCache (run (map (\<lambda>k. (e, lookup_call cv k)) ks) st0)) (hd ks) \<and>
      (\<forall>k \<in> set (tl ks).
         Map_has (ipCountryCache (run (map (\<lambda>k. (e, lookup_call cv k)) ks) st0)) k))"
proof -
  let ?st = "run calls initial_state"
  have ok: "cache_wf (ipCountryCache ?st)"
    using state_ok_reachable[of calls] by (simp add: state_ok_def)
  then have a: "length (ipCountryCache ?st) \<le> MAX_CACHE_SIZE" by (simp add: cache_wf_def)
  have b: "snd (lookup cv e ip st) = st" if "Map_has (ipCountryCache st) ip"
    using that by (cases "valid_ip ip") (simp_all add: lookup_invalid lookup_hit)
  have c: "ipCountryCache (snd (lookup cv e ip ?st)) =
        (if length (ipCountryCache ?st) = MAX_CACHE_SIZE then tl (ipCountryCache ?st)
         else ipCountryCache ?st) @ [(ip, code)]"
    if "valid_ip ip" "\<not> Map_has (ipCountryCache ?st) ip"
      "try_lookup cv e ip ?st = (Inr code, st')"
  proof -
    from that(2) have absent: "ip \<notin> fst ` set (ipCountryCache ?st)" by (simp add: Map_has_iff)
    show ?thesis
      using that try_lookup_Inr(1)[OF that(3)] cache_store_absent[OF ok absent]
      by (simp add: lookup_miss)
  qed
  have d: "ipCountryCache (run (map (\<lambda>k. (e, lookup_call cv k)) ks) st0) =
        tl (map (\<lambda>k. (k, extractCountryCode (databaseType st0) (res k))) ks) \<and>
      \<not> Map_has (ipCountryCache (run (map (\<lambda>k. (e, lookup_call cv k)) ks) st0)) (hd ks) \<and>
      (\<forall>k \<in> set (tl ks).
         Map_has (ipCountryCache (run (map (\<lambda>k. (e, lookup_call cv k)) ks) st0)) k)"
    if "geoIPReader st0 = Some r" "ipCountryCache st0 = []" "distinct ks"
      "length ks = Suc MAX_CACHE_SIZE"
      "\<forall>k \<in> set ks. valid_ip k \<and> reader_get e r k = Inr (res k)"
  proof -
    let ?final = "ipCountryCache (run (map (\<lambda>k. (e, lookup_call cv k)) ks) st0)"
    have f: "?final = tl (map (\<lambda>k. (k, extractCountryCode (databaseType st0) (res k))) ks)"
      using run_distinct_lookups[OF that(1,2,3,5), of cv] that(4)
      by (simp add: drop_Suc)
    then have keys: "map fst ?final = tl ks" by (simp add: map_tl comp_def)
    then have s: "fst ` set ?final = set (tl ks)" by (metis set_map)
    from that(3,4) have "hd ks \<notin> set (tl ks)" by (cases ks) auto
    with f s show ?thesis by (simp add: Map_has_iff)
  qed
  show ?thesis using a b c d by blast
qed

lemma probe_keys_facts:
  "distinct (probe_keys n)" "length (probe_keys n) = n"
  "\<forall>k \<in> set (probe_keys n). valid_ip k \<and>
     reader_get (example_env city_files) (Reader [77, 77]) k = Inr JNull"
  "''203.0.113.1'' \<notin> set (probe_keys n)"
proof -
  have "inj_on (\<lambda>i. replicate (Suc i) (CHR ''1'')) A" for A
    by (rule inj_onI) (metis length_replicate nat.inject)
  then show "distinct (probe_keys n)" by (simp add: probe_keys_def distinct_map)
  show "length (probe_keys n) = n" by (simp add: probe_keys_def)
  show "\<forall>k \<in> set (probe_keys n). valid_ip k \<and>
     reader_get (example_env city_files) (Reader [77, 77]) k = Inr JNull"
    by (auto simp: probe_keys_def valid_ip_def reader_get_def example_fs_simps example_get_def)
  show "''203.0.113.1'' \<notin> set (probe_keys n)"
    by (auto simp: probe_keys_def)
qed

lemma probe_keys_ends:
  "hd (probe_keys (Suc n)) = ''1''" "0 < n \<Longrightarrow> ''11'' \<in> set (tl (probe_keys (Suc n)))"
proof -
  show "hd (probe_keys (Suc n)) = ''1''"
    by (simp add: probe_keys_def hd_map del: upt_Suc)
  assume n: "0 < n"
  have "tl (probe_keys (Suc n)) = map (\<lambda>i. replicate (Suc i) (CHR ''1'')) [Suc 0..<Suc n]"
    by (simp add: probe_keys_def map_tl[symmetric] del: upt_Suc)
  moreover have "Suc 0 \<in> set [Suc 0..<Suc n]"
    using n by (simp del: upt_Suc)
  ultimately have "replicate (Suc (Suc 0)) (CHR ''1'') \<in> set (tl (probe_keys (Suc n)))"
    by (metis (no_types, lifting) image_eqI set_map)
  then show "''11'' \<in> set (tl (probe_keys (Suc n)))" by simp
qed

lemma extract_null: "extractCountryCode t JNull = JNull"
  by (simp add: extractCountryCode_def)

lemma city_lookup_known:
  "try_lookup Blocking (example_env city_files) ''8.8.8.8'' initial_state =
     (Inr (JString ''US''),
      initial_state\<lparr>geoIPReader := Some (Reader [77, 77]), databaseType := MaxMind,
        provider_queries := [''8.8.8.8''],
        ipCountryCache := [(''8.8.8.8'', JString ''US'')]\<rparr>)"
  by (simp add: try_lookup_def obtain_reader_def city_init query_and_store_def reader_get_def
      example_fs_simps example_get_def extractCountryCode_def cache_store_def
      MAX_CACHE_SIZE_def Let_def initial_fields Map_first_key_def)

lemma warm_up_state:
  "geoIPReader (run warm_up initial_state) = Some (Reader [77, 77])"
  "ipCountryCache (run warm_up initial_state) = []"
  by (simp_all add: warm_up_def getCountryCodeFromIP_def lookup_def Map_has_def initial_fields
      city_lookup_known clearCache_def)

lemma full_cache:
  "ipCountryCache (run (warm_up @ map (\<lambda>k. (example_env city_files, lookup_call Blocking k))
      (probe_keys MAX_CACHE_SIZE)) initial_state) =
     map (\<lambda>k. (k, JNull)) (probe_keys MAX_CACHE_SIZE)"
  "geoIPReader (run (warm_up @ map (\<lambda>k. (example_env city_files, lookup_call Blocking k))
      (probe_keys MAX_CACHE_SIZE)) initial_state) = Some (Reader [77, 77])"
  using run_distinct_lookups[where ?st0.0 = "run warm_up initial_state" and r = "Reader [77, 77]"
      and ks = "probe_keys MAX_CACHE_SIZE" and e = "example_env city_files"
      and res = "\<lambda>k. JNull" and cv = Blocking]
    warm_up_state probe_keys_facts(1,3)[of MAX_CACHE_SIZE]
  by (simp_all add: run_append probe_keys_facts(2) extract_null)

theorem cache_bounded_fifo_witness:
  "ipCountryCache
     (run (map (\<lambda>k. (example_env city_files, lookup_call Blocking k))
            (probe_keys (Suc MAX_CACHE_SIZE))) warm_state) =
     tl (map (\<lambda>k. (k, JNull)) (probe_keys (Suc MAX_CACHE_SIZE))) \<and>
   \<not> Map_has (ipCountryCache
     (run (map (\<lambda>k. (example_env city_files, lookup_call Blocking k))
            (probe_keys (Suc MAX_CACHE_SIZE))) warm_state)) ''1'' \<and>
   Map_has (ipCountryCache
     (run (map (\<lambda>k. (example_env city_files, lookup_call Blocking k))
            (probe_keys (Suc MAX_CACHE_SIZE))) warm_state)) ''11'' \<and>
   ipCountryCache (snd (lookup Blocking (example_env city_files) ''203.0.113.1''
     (run (warm_up @ map (\<lambda>k. (example_env city_files, lookup_call Blocking k))
            (probe_keys MAX_CACHE_SIZE)) initial_state))) =
     tl (map (\<lambda>k. (k, JNull)) (probe_keys MAX_CACHE_SIZE)) @ [(''203.0.113.1'', JNull)]"
proof -
  let ?e = "example_env city_files"
  let ?ks = "probe_keys (Suc MAX_CACHE_SIZE)"
  let ?final = "ipCountryCache (run (map (\<lambda>k. (?e, lookup_call Blocking k)) ?ks) warm_state)"
  have pre: "geoIPReader warm_state = Some (Reader [77, 77]) \<and> ipCountryCache warm_state = [] \<and>
      distinct ?ks \<and> length ?ks = Suc MAX_CACHE_SIZE \<and>
      (\<forall>k \<in> set ?ks. valid_ip k \<and> reader_get ?e (Reader [77, 77]) k = Inr JNull)"
    using probe_keys_facts(1,2,3) warm_fields(1,2) by blast
  have all: "?final =
        tl (map (\<lambda>k. (k, extractCountryCode (databaseType warm_state) JNull)) ?ks) \<and>
      \<not> Map_has ?final (hd ?ks) \<and> (\<forall>k \<in> set (tl ?ks). Map_has ?final k)"
    using cache_bounded_fifo[where calls = "[]" and ?st0.0 = warm_state
        and r = "Reader [77, 77]" and ks = ?ks and e = ?e
        and res = "\<lambda>k. JNull" and cv = Blocking,
        THEN conjunct2, THEN conjunct2, THEN conjunct2] pre
    by (rule mp)
  from all[THEN conjunct1] have f1: "?final = tl (map (\<lambda>k. (k, JNull)) ?ks)"
    by (simp only: extract_null)
  have f2: "\<not> Map_has ?final ''1''"
    using all[THEN conjunct2, THEN conjunct1] unfolding probe_keys_ends(1) .
  from all[THEN conjunct2, THEN conjunct2] probe_keys_ends(2)[OF MAX_CACHE_SIZE_pos]
  have f3: "Map_has ?final ''11''" by blast
  let ?calls = "warm_up @ map (\<lambda>k. (?e, lookup_call Blocking k)) (probe_keys MAX_CACHE_SIZE)"
  let ?full = "run ?calls initial_state"
  let ?st' = "?full\<lparr>provider_queries := provider_queries ?full @ [''203.0.113.1''],
      ipCountryCache := cache_store (ipCountryCache ?full) ''203.0.113.1'' JNull\<rparr>"
  have v: "valid_ip ''203.0.113.1''" by (simp add: valid_ip_def)
  have m: "\<not> Map_has (ipCountryCache ?full) ''203.0.113.1''"
    using probe_keys_facts(4)[of MAX_CACHE_SIZE]
    by (simp only: full_cache(1) Map_has_iff) (simp add: image_image)
  have g: "reader_get ?e (Reader [77, 77]) ''203.0.113.1'' = Inr JNull"
    by (simp add: reader_get_def example_fs_simps example_get_def)
  have t: "try_lookup Blocking ?e ''203.0.113.1'' ?full = (Inr JNull, ?st')"
    by (simp add: try_lookup_def obtain_reader_ready[OF full_cache(2)] query_and_store_def g
        extract_null Let_def)
  have "ipCountryCache (snd (lookup Blocking ?e ''203.0.113.1'' ?full)) =
      (if length (ipCountryCache ?full) = MAX_CACHE_SIZE then tl (ipCountryCache ?full)
       else ipCountryCache ?full) @ [(''203.0.113.1'', JNull)]"
    using cache_bounded_fifo[where calls = ?calls and ip = "''203.0.113.1''" and cv = Blocking
        and e = ?e and code = JNull and st' = ?st',
        THEN conjunct2, THEN conjunct2, THEN conjunct1] v m t
    by blast
  then have f4: "ipCountryCache (snd (lookup Blocking ?e ''203.0.113.1'' ?full)) =
      tl (map (\<lambda>k. (k, JNull)) (probe_keys MAX_CACHE_SIZE)) @ [(''203.0.113.1'', JNull)]"
    by (simp add: full_cache(1) probe_keys_facts(2))
  from f1 f2 f3 f4 show ?thesis by blast
qed

section \<open>Loads triggered together\<close>










end
